theory Spec2Isabelle
  imports Main
begin

section \<open>Phonical: the audio playback pipeline of \<^verbatim>\<open>main.go\<close>\<close>

text \<open>
  The program keeps five package-level variables (lines 54-60): the flag
  \<^verbatim>\<open>speakerInitialized\<close>, the buffered channel \<^verbatim>\<open>playQueue\<close> of capacity 100, the
  flag \<^verbatim>\<open>verbose\<close>, the map \<^verbatim>\<open>soundCache\<close> and its mutex.  They are modelled as a
  record that every function takes and returns.  What the program prints is
  part of the record too, as a list of structured messages.

  Everything outside the repository is a parameter, collected in the record
  \<open>env\<close>: the embedded file system, the two decoders of the \<^verbatim>\<open>beep\<close> library,
  the initialisation of the speaker and the Unicode lower-casing table.
\<close>

subsection \<open>Data\<close>

text \<open>
  A Go \<^verbatim>\<open>string\<close> is a sequence of bytes, which is what \<^typ>\<open>string\<close> is.  A rune is
  a code point.  The runes of this program are the key character of a hook
  event, which the hook library fills from an unsigned field, and the
  conversion of a byte; none is negative, and a rune is modelled as a natural
  number.  A Go \<^verbatim>\<open>error\<close> is modelled by its message.
\<close>

type_synonym rune = nat
type_synonym error = string
type_synonym asset = string

text \<open>\<^verbatim>\<open>beep.Format\<close>: sample rate, number of channels, bytes per sample.\<close>

record format =
  SampleRate :: int
  NumChannels :: int
  Precision :: int

text \<open>
  A decoded stream is the list of its stereo samples.  The program never looks
  inside a sample, so a sample is a pair of integers here.
\<close>

type_synonym samples = "(int \<times> int) list"

text \<open>\<^verbatim>\<open>beep.Buffer\<close>: a format and the samples appended to it.\<close>

record buffer =
  buf_format :: format
  buf_data :: samples

text \<open>The fields of a \<^verbatim>\<open>hook.Event\<close> that \<^verbatim>\<open>main\<close> reads.\<close>

record hookEvent =
  Kind :: nat
  Rawcode :: nat
  Keychar :: rune
  Keycode :: nat

text \<open>
  One constructor for each place where the program prints, but for the farewell
  at the signal that ends \<^verbatim>\<open>main\<close>: a run of the model is what happens before it.
\<close>

datatype msg =
    HelpText string
  | Banner
  | Listening
  | EventInfo nat nat rune nat
  | NonCharacterKey nat
  | KeyPressed rune string
  | QueueFullSkipping
  | FailedToLoad string error
  | FailedToInitSpeaker error
  | FailedToInitAudio error
  | Preloading
  | FailedToPreload string error
  | Preloaded nat

record state =
  speakerInitialized :: bool
  playQueue :: "string list"
  verbose :: bool
  soundCache :: "string \<rightharpoonup> buffer"
  printed :: "msg list"

record env =
  soundFiles_Open :: "string \<Rightarrow> error + asset"
  mp3_Decode :: "asset \<Rightarrow> error + samples \<times> format"
  wav_Decode :: "asset \<Rightarrow> error + samples \<times> format"
  speaker_Init :: "int \<Rightarrow> int \<Rightarrow> error option"
  unicode_ToLower :: "rune \<Rightarrow> rune"

definition say :: "msg \<Rightarrow> state \<Rightarrow> state" where
  "say m s = s\<lparr>printed := printed s @ [m]\<rparr>"

text \<open>The state of the package-level variables when \<^verbatim>\<open>main\<close> starts (lines 54-60).\<close>

definition initial_state :: state where
  "initial_state =
     \<lparr>speakerInitialized = False, playQueue = [], verbose = False,
      soundCache = Map.empty, printed = []\<rparr>"

subsection \<open>The letter table (lines 25-52)\<close>

definition rune_of :: "char \<Rightarrow> rune" where
  "rune_of c = of_char c"

definition phonicsMap :: "(rune \<times> string) list" where
  "phonicsMap =
     [(rune_of CHR ''a'', ''a.wav''), (rune_of CHR ''b'', ''b.wav''),
      (rune_of CHR ''c'', ''c.wav''), (rune_of CHR ''d'', ''d.wav''),
      (rune_of CHR ''e'', ''e.wav''), (rune_of CHR ''f'', ''f.wav''),
      (rune_of CHR ''g'', ''g.wav''), (rune_of CHR ''h'', ''h.wav''),
      (rune_of CHR ''i'', ''i.wav''), (rune_of CHR ''j'', ''j.wav''),
      (rune_of CHR ''k'', ''k.wav''), (rune_of CHR ''l'', ''l.wav''),
      (rune_of CHR ''m'', ''m.wav''), (rune_of CHR ''n'', ''n.wav''),
      (rune_of CHR ''o'', ''o.wav''), (rune_of CHR ''p'', ''p.wav''),
      (rune_of CHR ''q'', ''q.wav''), (rune_of CHR ''r'', ''r.wav''),
      (rune_of CHR ''s'', ''s.wav''), (rune_of CHR ''t'', ''t.wav''),
      (rune_of CHR ''u'', ''u.wav''), (rune_of CHR ''v'', ''v.wav''),
      (rune_of CHR ''w'', ''w.wav''), (rune_of CHR ''x'', ''x.wav''),
      (rune_of CHR ''y'', ''y.wav''), (rune_of CHR ''z'', ''z.wav'')]"

subsection \<open>The speaker (lines 62-81)\<close>

text \<open>
  \<^verbatim>\<open>SampleRate.N(d)\<close> of the \<^verbatim>\<open>beep\<close> library is the number of samples in the
  duration \<open>d\<close>, given in nanoseconds: \<^verbatim>\<open>int(d * Duration(sr) / time.Second)\<close>.
\<close>

definition SampleRate_N :: "int \<Rightarrow> int \<Rightarrow> int" where
  "SampleRate_N sr d = (d * sr) div 1000000000"

definition canonical_format :: format where
  "canonical_format = \<lparr>SampleRate = 44100, NumChannels = 2, Precision = 2\<rparr>"

definition initSpeaker :: "env \<Rightarrow> state \<Rightarrow> error option \<times> state" where
  "initSpeaker env s =
     (if speakerInitialized s then (None, s)
      else
        (let format = canonical_format in
         case speaker_Init env (SampleRate format)
                (SampleRate_N (SampleRate format) (1000000000 div 60)) of
           Some err \<Rightarrow> (Some (''failed to initialize speaker: '' @ err), s)
         | None \<Rightarrow> (None, s\<lparr>speakerInitialized := True\<rparr>)))"

subsection \<open>The sound cache (lines 83-121)\<close>

text \<open>\<^verbatim>\<open>strings.HasSuffix\<close>.\<close>

definition HasSuffix :: "string \<Rightarrow> string \<Rightarrow> bool" where
  "HasSuffix s suffix =
     (length suffix \<le> length s \<and> drop (length s - length suffix) s = suffix)"

text \<open>
  Lines 91-106: the asset is opened, then decoded by the decoder that the
  suffix of the path selects.  The suffix is looked at only after the asset
  has been opened.
\<close>

definition decodeAsset :: "env \<Rightarrow> string \<Rightarrow> error + samples \<times> format" where
  "decodeAsset env soundPath =
     (case soundFiles_Open env (''sounds/'' @ soundPath) of
        Inl err \<Rightarrow> Inl err
      | Inr file \<Rightarrow>
          if HasSuffix soundPath ''.mp3'' then mp3_Decode env file
          else if HasSuffix soundPath ''.wav'' then wav_Decode env file
          else Inl (''unsupported format: '' @ soundPath))"

text \<open>
  Lines 108-120: an error of the decoder is returned as it is.  Otherwise a new
  buffer of the decoded format receives every sample of the stream and is
  stored under the path.
\<close>

definition storeDecoded ::
  "state \<Rightarrow> string \<Rightarrow> error + samples \<times> format \<Rightarrow> (error + buffer \<times> format) \<times> state" where
  "storeDecoded s soundPath decoded =
     (case decoded of
        Inl err \<Rightarrow> (Inl err, s)
      | Inr (streamer, format) \<Rightarrow>
          (let buffer = \<lparr>buf_format = format, buf_data = streamer\<rparr> in
           (Inr (buffer, format),
            s\<lparr>soundCache := (soundCache s)(soundPath \<mapsto> buffer)\<rparr>)))"

text \<open>Lines 84-89 answer from the cache; the rest runs on a miss.\<close>

definition loadSound :: "env \<Rightarrow> state \<Rightarrow> string \<Rightarrow> (error + buffer \<times> format) \<times> state" where
  "loadSound env s soundPath =
     (case soundCache s soundPath of
        Some buffer \<Rightarrow> (Inr (buffer, canonical_format), s)
      | None \<Rightarrow> storeDecoded s soundPath (decodeAsset env soundPath))"

subsection \<open>Playing one sound (lines 123-147)\<close>

text \<open>
  \<^verbatim>\<open>playSound\<close> either returns early (the load or the speaker failed) or hands
  the whole buffer to \<^verbatim>\<open>speaker.Play\<close> (line 143) and then waits on the channel
  \<^verbatim>\<open>done\<close> (line 146).  The second component of the result is the buffer handed
  to the speaker, if any; the wait is part of the consumer's steps below.
\<close>

definition playSound :: "env \<Rightarrow> state \<Rightarrow> string \<Rightarrow> state \<times> buffer option" where
  "playSound env s soundPath =
     (case loadSound env s soundPath of
        (Inl err, s1) \<Rightarrow>
          ((if verbose s1 then say (FailedToLoad soundPath err) s1 else s1), None)
      | (Inr (buffer, _), s1) \<Rightarrow>
          if \<not> speakerInitialized s1 then
            (case initSpeaker env s1 of
               (Some err, s2) \<Rightarrow>
                 ((if verbose s2 then say (FailedToInitSpeaker err) s2 else s2), None)
             | (None, s2) \<Rightarrow> (s2, Some buffer))
          else (s1, Some buffer))"

subsection \<open>The producer (lines 155-169)\<close>

text \<open>
  A buffered channel is the list of the values it holds, oldest first.  The
  \<^verbatim>\<open>select\<close> with a \<^verbatim>\<open>default\<close> branch of lines 161-167 sends when the buffer has
  room and otherwise takes the default branch at once.
\<close>

definition playQueue_capacity :: nat where
  "playQueue_capacity = 100"

definition trySend :: "string list \<Rightarrow> string \<Rightarrow> bool \<times> string list" where
  "trySend q x = (if length q < playQueue_capacity then (True, q @ [x]) else (False, q))"

definition handleKeyPress :: "state \<Rightarrow> rune \<Rightarrow> state" where
  "handleKeyPress s char =
     (case map_of phonicsMap char of
        Some soundFile \<Rightarrow>
          (let s1 = (if verbose s then say (KeyPressed char soundFile) s else s) in
           case trySend (playQueue s1) soundFile of
             (True, q) \<Rightarrow> s1\<lparr>playQueue := q\<rparr>
           | (False, _) \<Rightarrow> if verbose s1 then say QueueFullSkipping s1 else s1)
      | None \<Rightarrow> s)"

subsection \<open>Preloading (lines 171-186)\<close>

text \<open>
  The loop of lines 176-181 ranges over the table in an order that the Go
  runtime chooses; the order is a parameter, a list of the table's entries.
  \<^verbatim>\<open>len(soundCache)\<close> is the number of keys of the map.
\<close>

fun preloadLoop :: "env \<Rightarrow> state \<Rightarrow> string list \<Rightarrow> state" where
  "preloadLoop env s [] = s"
| "preloadLoop env s (soundFile # rest) =
     (case loadSound env s soundFile of
        (Inl err, s1) \<Rightarrow>
          preloadLoop env
            (if verbose s1 then say (FailedToPreload soundFile err) s1 else s1) rest
      | (Inr _, s1) \<Rightarrow> preloadLoop env s1 rest)"

definition preloadSounds :: "env \<Rightarrow> (rune \<times> string) list \<Rightarrow> state \<Rightarrow> state" where
  "preloadSounds env order s =
     (let s1 = (if verbose s then say Preloading s else s);
          s2 = preloadLoop env s1 (map snd order)
      in if verbose s2 then say (Preloaded (card (dom (soundCache s2)))) s2 else s2)"

subsection \<open>The key character of an event (lines 239-242)\<close>

text \<open>
  \<^verbatim>\<open>string(char)\<close> is the UTF-8 encoding of the rune, and of \<^verbatim>\<open>U+FFFD\<close> when the
  rune is not a valid code point.
\<close>

definition RuneError :: rune where
  "RuneError = 0xFFFD"

definition MaxRune :: rune where
  "MaxRune = 0x10FFFF"

definition utf8_valid :: "rune \<Rightarrow> rune" where
  "utf8_valid r = (if MaxRune < r \<or> (0xD800 \<le> r \<and> r \<le> 0xDFFF) then RuneError else r)"

definition utf8_encode :: "rune \<Rightarrow> string" where
  "utf8_encode r =
     (if r < 0x80 then [char_of r]
      else if r < 0x800 then [char_of (0xC0 + r div 64), char_of (0x80 + r mod 64)]
      else if r < 0x10000 then
        [char_of (0xE0 + r div 4096), char_of (0x80 + (r div 64) mod 64),
         char_of (0x80 + r mod 64)]
      else
        [char_of (0xF0 + r div 262144), char_of (0x80 + (r div 4096) mod 64),
         char_of (0x80 + (r div 64) mod 64), char_of (0x80 + r mod 64)])"

definition string_of_rune :: "rune \<Rightarrow> string" where
  "string_of_rune r = utf8_encode (utf8_valid r)"

text \<open>
  \<^verbatim>\<open>strings.ToLower\<close> applied to \<^verbatim>\<open>string(char)\<close>.  When every byte is below
  \<^verbatim>\<open>0x80\<close> the library adds \<^verbatim>\<open>'a' - 'A'\<close> to the bytes between \<^verbatim>\<open>'A'\<close> and \<^verbatim>\<open>'Z'\<close>;
  otherwise it maps \<^verbatim>\<open>unicode.ToLower\<close> over the runes of the string, here the
  single rune that \<^verbatim>\<open>string(char)\<close> encodes, and encodes the result.
\<close>

definition ascii_lower :: "char \<Rightarrow> char" where
  "ascii_lower c =
     (if rune_of CHR ''A'' \<le> rune_of c \<and> rune_of c \<le> rune_of CHR ''Z''
      then char_of (rune_of c + (rune_of CHR ''a'' - rune_of CHR ''A''))
      else c)"

definition ToLower_string_of_rune :: "env \<Rightarrow> rune \<Rightarrow> string" where
  "ToLower_string_of_rune env r =
     (let s = string_of_rune r in
      if list_all (\<lambda>c. rune_of c < 0x80) s then map ascii_lower s
      else string_of_rune (unicode_ToLower env (utf8_valid r)))"

text \<open>Line 242: the first byte of the lower-cased string, as a rune.\<close>

definition lowered :: "env \<Rightarrow> rune \<Rightarrow> rune" where
  "lowered env char = rune_of (hd (ToLower_string_of_rune env char))"

subsection \<open>One event of the hook (lines 232-247)\<close>

definition mainEvent :: "env \<Rightarrow> state \<Rightarrow> hookEvent \<Rightarrow> state" where
  "mainEvent env s ev =
     (let s1 = (if verbose s
                then say (EventInfo (Kind ev) (Rawcode ev) (Keychar ev) (Keycode ev)) s
                else s)
      in if Kind ev = 3 then
           if Keychar ev \<noteq> 0 then handleKeyPress s1 (lowered env (Keychar ev))
           else if verbose s1 then say (NonCharacterKey (Rawcode ev)) s1
           else s1
         else s1)"

subsection \<open>Start of the program (lines 188-218)\<close>

datatype started = Exited nat state | Started state

definition startup :: "env \<Rightarrow> (rune \<times> string) list \<Rightarrow> string list \<Rightarrow> state \<Rightarrow> started" where
  "startup env order args s =
     (let s1 = (if 1 < length args \<and> (args ! 1 = ''-v'' \<or> args ! 1 = ''--verbose'')
                then s\<lparr>verbose := True\<rparr> else s)
      in if 1 < length args \<and> (args ! 1 = ''-h'' \<or> args ! 1 = ''--help'')
         then Exited 0 (say (HelpText (args ! 0)) s1)
         else
           (case initSpeaker env (say Banner s1) of
              (Some err, s2) \<Rightarrow> Exited 1 (say (FailedToInitAudio err) s2)
            | (None, s2) \<Rightarrow> Started (say Listening (preloadSounds env order s2))))"

subsection \<open>The running program: producer, consumer and audio device\<close>

text \<open>
  After the start three parties run side by side: the loop of \<^verbatim>\<open>main\<close>, which
  handles one hook event at a time; the goroutine \<^verbatim>\<open>soundPlayer\<close> (lines 149-153),
  which receives from the queue and calls \<^verbatim>\<open>playSound\<close>; and the speaker of the
  \<^verbatim>\<open>beep\<close> library, which streams what \<^verbatim>\<open>speaker.Play\<close> handed to it and, when a
  stream is drained, runs the callback that sends on \<^verbatim>\<open>done\<close>.  A run is a list
  of actions, one for each step of one of the parties, in the order in which
  they happen.

  The consumer is either at the head of its loop, where it receives from the
  queue (and waits while the queue is empty), or inside \<^verbatim>\<open>playSound\<close> at line 146,
  where it waits for \<^verbatim>\<open>done\<close>.  The device holds the buffers handed to it and
  not yet drained; what it has begun and finished streaming is recorded in
  \<open>audio\<close>.
\<close>

datatype consumer = Receiving | AwaitingDone

datatype audio_event = PlayBegin buffer | PlayEnd buffer

record config =
  globals :: state
  consumer :: consumer
  speaker :: "buffer list"
  audio :: "audio_event list"

text \<open>
  \<open>Event ev\<close> is one turn of the loop of \<^verbatim>\<open>main\<close>.  \<open>Consume\<close> is one turn of the
  loop of \<^verbatim>\<open>soundPlayer\<close> up to the wait for \<^verbatim>\<open>done\<close>: it receives from the queue and
  runs \<^verbatim>\<open>playSound\<close>, and does nothing while the queue is empty or the consumer
  waits.  \<open>DeviceDone i\<close> is the device draining the \<open>i\<close>-th buffer it holds:
  the callback sends on \<^verbatim>\<open>done\<close>, the consumer receives and returns to the head
  of its loop.
\<close>

datatype action = Event hookEvent | Consume | DeviceDone nat

definition consume :: "env \<Rightarrow> config \<Rightarrow> config" where
  "consume env c =
     (if consumer c = Receiving then
        (case playQueue (globals c) of
           [] \<Rightarrow> c
         | soundFile # q \<Rightarrow>
             (case playSound env ((globals c)\<lparr>playQueue := q\<rparr>) soundFile of
                (g, None) \<Rightarrow> c\<lparr>globals := g\<rparr>
              | (g, Some buffer) \<Rightarrow>
                  c\<lparr>globals := g, consumer := AwaitingDone,
                    speaker := speaker c @ [buffer],
                    audio := audio c @ [PlayBegin buffer]\<rparr>))
      else c)"

definition deviceDone :: "config \<Rightarrow> nat \<Rightarrow> config" where
  "deviceDone c i =
     (if i < length (speaker c) then
        c\<lparr>speaker := take i (speaker c) @ drop (Suc i) (speaker c),
          audio := audio c @ [PlayEnd (speaker c ! i)],
          consumer := Receiving\<rparr>
      else c)"

fun step :: "env \<Rightarrow> config \<Rightarrow> action \<Rightarrow> config" where
  "step env c (Event ev) = c\<lparr>globals := mainEvent env (globals c) ev\<rparr>"
| "step env c Consume = consume env c"
| "step env c (DeviceDone i) = deviceDone c i"

fun exec :: "env \<Rightarrow> config \<Rightarrow> action list \<Rightarrow> config" where
  "exec env c [] = c"
| "exec env c (a # as) = exec env (step env c a) as"

text \<open>The configuration in which \<^verbatim>\<open>main\<close> enters its loop, after \<^verbatim>\<open>go soundPlayer()\<close>.\<close>

definition running :: "state \<Rightarrow> config" where
  "running s = \<lparr>globals = s, consumer = Receiving, speaker = [], audio = []\<rparr>"

subsection \<open>Observations of a run\<close>

text \<open>The buffer that a miss stores for a path: none when opening or decoding fails.\<close>

definition decoded_buffer :: "env \<Rightarrow> string \<Rightarrow> buffer option" where
  "decoded_buffer env soundPath =
     (case decodeAsset env soundPath of
        Inl err \<Rightarrow> None
      | Inr (streamer, format) \<Rightarrow> Some \<lparr>buf_format = format, buf_data = streamer\<rparr>)"

text \<open>
  A state without what the flag \<^verbatim>\<open>verbose\<close> governs: the flag itself and what has
  been printed.  Two states with the same image are the same for playback.
\<close>

definition silent :: "state \<Rightarrow> state" where
  "silent s = s\<lparr>verbose := False, printed := []\<rparr>"

definition hush :: "config \<Rightarrow> config" where
  "hush c = c\<lparr>globals := silent (globals c)\<rparr>"

text \<open>The configurations that a run passes through, the first one included.\<close>

fun configs :: "env \<Rightarrow> config \<Rightarrow> action list \<Rightarrow> config list" where
  "configs env c [] = [c]"
| "configs env c (a # as) = c # configs env (step env c a) as"

text \<open>The send that an action attempts, with the identifier and whether it was accepted.\<close>

definition sends :: "env \<Rightarrow> config \<Rightarrow> action \<Rightarrow> (string \<times> bool) list" where
  "sends env c a =
     (case a of
        Event ev \<Rightarrow>
          if Kind ev = 3 \<and> Keychar ev \<noteq> 0 then
            (case map_of phonicsMap (lowered env (Keychar ev)) of
               Some soundFile \<Rightarrow> [(soundFile, fst (trySend (playQueue (globals c)) soundFile))]
             | None \<Rightarrow> [])
          else []
      | _ \<Rightarrow> [])"

text \<open>The identifier that an action takes from the queue, if it takes one.\<close>

definition receives :: "config \<Rightarrow> action \<Rightarrow> string list" where
  "receives c a =
     (case a of
        Consume \<Rightarrow> if consumer c = Receiving then take 1 (playQueue (globals c)) else []
      | _ \<Rightarrow> [])"

text \<open>The sends and the receives of a whole run, in the order in which they happen.\<close>

fun all_sends :: "env \<Rightarrow> config \<Rightarrow> action list \<Rightarrow> (string \<times> bool) list" where
  "all_sends env c [] = []"
| "all_sends env c (a # as) = sends env c a @ all_sends env (step env c a) as"

fun all_receives :: "env \<Rightarrow> config \<Rightarrow> action list \<Rightarrow> string list" where
  "all_receives env c [] = []"
| "all_receives env c (a # as) = receives c a @ all_receives env (step env c a) as"

text \<open>
  A history of the device in which every clip that begins ends before the next
  one begins; the last clip may still be playing.
\<close>

fun sequential :: "audio_event list \<Rightarrow> bool" where
  "sequential [] = True"
| "sequential [PlayBegin b] = True"
| "sequential (PlayBegin b # PlayEnd b' # rest) = (b = b' \<and> sequential rest)"
| "sequential _ = False"

text \<open>The identifiers of the accepted sends.\<close>

definition accepted :: "(string \<times> bool) list \<Rightarrow> string list" where
  "accepted xs = map fst (filter snd xs)"

text \<open>The result of the start, without what \<^verbatim>\<open>verbose\<close> governs.\<close>

fun silent_started :: "started \<Rightarrow> started" where
  "silent_started (Exited n s) = Exited n (silent s)"
| "silent_started (Started s) = Started (silent s)"

text \<open>
  The consumer and the device agree: while the consumer is at the head of its
  loop the device holds nothing, and while it waits for \<^verbatim>\<open>done\<close> the device holds
  exactly the buffer whose playing began last.
\<close>

definition one_at_a_time :: "config \<Rightarrow> bool" where
  "one_at_a_time c =
     (case consumer c of
        Receiving \<Rightarrow> speaker c = [] \<and> sequential (audio c) \<and> even (length (audio c))
      | AwaitingDone \<Rightarrow>
          (\<exists>b au. speaker c = [b] \<and> audio c = au @ [PlayBegin b] \<and>
                  sequential au \<and> even (length au)))"

subsection \<open>Sample inputs\<close>

text \<open>
  A small environment: \<^verbatim>\<open>a.wav\<close> decodes to the canonical format, \<^verbatim>\<open>lo.wav\<close> to
  22050 Hz mono, \<^verbatim>\<open>c.mp3\<close> is an MP3 file, \<^verbatim>\<open>b.wav\<close> is not a WAV file at all,
  \<^verbatim>\<open>notes.txt\<close> has neither suffix, and no other asset exists.
\<close>

definition sample_Open :: "string \<Rightarrow> error + asset" where
  "sample_Open name =
     (if name = ''sounds/a.wav'' then Inr ''RIFF-a''
      else if name = ''sounds/lo.wav'' then Inr ''RIFF-lo''
      else if name = ''sounds/c.mp3'' then Inr ''ID3-c''
      else if name = ''sounds/b.wav'' then Inr ''junk''
      else if name = ''sounds/notes.txt'' then Inr ''text''
      else Inl (''open '' @ name @ '': file does not exist''))"

definition lo_format :: format where
  "lo_format = \<lparr>SampleRate = 22050, NumChannels = 1, Precision = 1\<rparr>"

definition sample_wav :: "asset \<Rightarrow> error + samples \<times> format" where
  "sample_wav a =
     (if a = ''RIFF-a'' then Inr ([(1, -1), (2, -2)], canonical_format)
      else if a = ''RIFF-lo'' then Inr ([(3, 3)], lo_format)
      else Inl ''wav: missing RIFF at the beginning'')"

definition sample_mp3 :: "asset \<Rightarrow> error + samples \<times> format" where
  "sample_mp3 a =
     (if a = ''ID3-c'' then Inr ([(5, 5)], canonical_format)
      else Inl ''mp3: no frame found'')"

text \<open>
  A part of the table of \<^verbatim>\<open>unicode.ToLower\<close>: the capital letters of Latin-1, the
  capital I with a dot above (\<^verbatim>\<open>U+0130\<close>), which it sends to \<^verbatim>\<open>i\<close>, and the Kelvin
  sign (\<^verbatim>\<open>U+212A\<close>), which it sends to \<^verbatim>\<open>k\<close>.
\<close>

definition sample_ToLower :: "rune \<Rightarrow> rune" where
  "sample_ToLower r =
     (if 0xC0 \<le> r \<and> r \<le> 0xDE \<and> r \<noteq> 0xD7 then r + 32
      else if r = 0x130 then 0x69
      else if r = 0x212A then 0x6B
      else r)"

definition sample_env :: env where
  "sample_env =
     \<lparr>soundFiles_Open = sample_Open, mp3_Decode = sample_mp3, wav_Decode = sample_wav,
      speaker_Init = (\<lambda>_ _. None), unicode_ToLower = sample_ToLower\<rparr>"

text \<open>An environment without any asset.\<close>

definition bare_env :: env where
  "bare_env =
     \<lparr>soundFiles_Open = (\<lambda>name. Inl (''open '' @ name @ '': file does not exist'')),
      mp3_Decode = (\<lambda>_. Inl ''mp3: no frame found''),
      wav_Decode = (\<lambda>_. Inl ''wav: missing RIFF at the beginning''),
      speaker_Init = (\<lambda>_ _. None), unicode_ToLower = id\<rparr>"

definition a_buffer :: buffer where
  "a_buffer = \<lparr>buf_format = canonical_format, buf_data = [(1, -1), (2, -2)]\<rparr>"

definition lo_buffer :: buffer where
  "lo_buffer = \<lparr>buf_format = lo_format, buf_data = [(3, 3)]\<rparr>"

definition full_queue :: state where
  "full_queue = initial_state\<lparr>playQueue := replicate 100 ''a.wav''\<rparr>"

definition key_down :: "rune \<Rightarrow> hookEvent" where
  "key_down k = \<lparr>Kind = 3, Rawcode = 0, Keychar = k, Keycode = 0\<rparr>"

definition a_cached :: state where
  "a_cached = initial_state\<lparr>soundCache := [''a.wav'' \<mapsto> a_buffer]\<rparr>"

definition lo_cached :: state where
  "lo_cached = initial_state\<lparr>soundCache := [''lo.wav'' \<mapsto> lo_buffer]\<rparr>"

definition verbose_state :: state where
  "verbose_state = initial_state\<lparr>verbose := True\<rparr>"

definition three_keys :: "action list" where
  "three_keys =
     [Event (key_down (rune_of CHR ''a'')), Event (key_down (rune_of CHR ''B'')),
      Event (key_down (rune_of CHR ''c'')), Consume, DeviceDone 0, Consume, DeviceDone 0,
      Consume]"

definition one_key :: "action list" where
  "one_key = [Event (key_down (rune_of CHR ''a'')), Consume, DeviceDone 0]"

section \<open>Properties\<close>

subsection \<open>What each function leaves alone\<close>

lemma say_fields [simp]:
  "playQueue (say m s) = playQueue s"
  "verbose (say m s) = verbose s"
  "soundCache (say m s) = soundCache s"
  "speakerInitialized (say m s) = speakerInitialized s"
  by (simp_all add: say_def)

lemma storeDecoded_frame:
  "storeDecoded s p d = (r, s') \<Longrightarrow>
     playQueue s' = playQueue s \<and> verbose s' = verbose s \<and> printed s' = printed s \<and>
     speakerInitialized s' = speakerInitialized s"
  by (auto simp: storeDecoded_def Let_def split: sum.splits prod.splits)

lemma loadSound_frame:
  "loadSound env s p = (r, s') \<Longrightarrow>
     playQueue s' = playQueue s \<and> verbose s' = verbose s \<and> printed s' = printed s \<and>
     speakerInitialized s' = speakerInitialized s"
  by (auto simp: loadSound_def dest: storeDecoded_frame split: option.splits)

lemma initSpeaker_frame:
  "initSpeaker env s = (r, s') \<Longrightarrow>
     playQueue s' = playQueue s \<and> verbose s' = verbose s \<and> printed s' = printed s \<and>
     soundCache s' = soundCache s"
  by (auto simp: initSpeaker_def Let_def split: option.splits if_splits)

lemma playSound_playQueue: "playQueue (fst (playSound env s p)) = playQueue s"
proof -
  obtain r s1 where l: "loadSound env s p = (r, s1)" by (cases "loadSound env s p")
  obtain e s2 where i: "initSpeaker env s1 = (e, s2)" by (cases "initSpeaker env s1")
  from loadSound_frame [OF l] initSpeaker_frame [OF i] show ?thesis
    by (auto simp: playSound_def l i split: sum.splits option.splits prod.splits)
qed

lemma globals_deviceDone [simp]: "globals (deviceDone c i) = globals c"
  by (simp add: deviceDone_def)

subsection \<open>The bounded queue\<close>

lemma trySend_full: "length q = playQueue_capacity \<Longrightarrow> trySend q x = (False, q)"
  by (simp add: trySend_def)

lemma playQueue_handleKeyPress:
  "playQueue (handleKeyPress s char) =
     (case map_of phonicsMap char of
        None \<Rightarrow> playQueue s
      | Some soundFile \<Rightarrow>
          if length (playQueue s) < playQueue_capacity then playQueue s @ [soundFile]
          else playQueue s)"
  by (simp add: handleKeyPress_def trySend_def Let_def split: option.splits)

lemma playQueue_mainEvent:
  "playQueue (mainEvent env s ev) =
     (if Kind ev = 3 \<and> Keychar ev \<noteq> 0
      then playQueue (handleKeyPress s (lowered env (Keychar ev)))
      else playQueue s)"
  by (simp add: mainEvent_def Let_def playQueue_handleKeyPress split: option.splits)

lemma playQueue_consume:
  "playQueue (globals (consume env c)) =
     (if consumer c = Receiving then tl (playQueue (globals c)) else playQueue (globals c))"
proof (cases "playQueue (globals c)")
  case Nil
  then show ?thesis by (simp add: consume_def)
next
  case (Cons x q)
  have "playQueue (fst (playSound env ((globals c)\<lparr>playQueue := q\<rparr>) x)) = q"
    by (simp add: playSound_playQueue)
  then show ?thesis
    by (auto simp: consume_def Cons split: prod.splits option.splits)
qed

lemma step_bounded:
  "length (playQueue (globals c)) \<le> playQueue_capacity \<Longrightarrow>
   length (playQueue (globals (step env c a))) \<le> playQueue_capacity"
  by (cases a)
     (auto simp: playQueue_mainEvent playQueue_handleKeyPress playQueue_consume
           split: option.splits)

lemma exec_bounded:
  "length (playQueue (globals c)) \<le> playQueue_capacity \<Longrightarrow>
   length (playQueue (globals (exec env c sched))) \<le> playQueue_capacity"
  by (induction sched arbitrary: c) (simp_all add: step_bounded)

text \<open>
  C1.  The queue has capacity 100.  When it holds 100 identifiers, the send of
  \<^verbatim>\<open>handleKeyPress\<close> is not accepted and the queue is what it was, for the send
  alone, for \<^verbatim>\<open>handleKeyPress\<close> and for a whole event of the hook.  In every run of
  the program the queue never holds more than 100 identifiers.  The send is a
  total function: it returns in every state.
\<close>

theorem playQueue_full_drops:
  "playQueue_capacity = 100 \<and>
   (length (playQueue s) = playQueue_capacity \<longrightarrow>
      trySend (playQueue s) soundFile = (False, playQueue s) \<and>
      playQueue (handleKeyPress s char) = playQueue s \<and>
      playQueue (mainEvent env s ev) = playQueue s) \<and>
   (length (playQueue (globals c)) \<le> playQueue_capacity \<longrightarrow>
      length (playQueue (globals (exec env c sched))) \<le> playQueue_capacity)"
proof (intro conjI impI)
  show "playQueue_capacity = 100" by (simp add: playQueue_capacity_def)
next
  assume "length (playQueue s) = playQueue_capacity"
  then show "trySend (playQueue s) soundFile = (False, playQueue s)"
    by (rule trySend_full)
next
  assume "length (playQueue s) = playQueue_capacity"
  then show "playQueue (handleKeyPress s char) = playQueue s"
    by (simp add: playQueue_handleKeyPress split: option.splits)
next
  assume "length (playQueue s) = playQueue_capacity"
  then show "playQueue (mainEvent env s ev) = playQueue s"
    by (simp add: playQueue_mainEvent playQueue_handleKeyPress split: option.splits)
next
  assume "length (playQueue (globals c)) \<le> playQueue_capacity"
  then show "length (playQueue (globals (exec env c sched))) \<le> playQueue_capacity"
    by (rule exec_bounded)
qed

theorem playQueue_full_drops_witness:
  "length (playQueue full_queue) = playQueue_capacity \<and>
   trySend (playQueue full_queue) ''b.wav'' = (False, playQueue full_queue) \<and>
   playQueue (handleKeyPress full_queue (rune_of CHR ''b'')) = playQueue full_queue \<and>
   playQueue (mainEvent sample_env full_queue (key_down 98)) = playQueue full_queue \<and>
   length (playQueue (globals (running full_queue))) \<le> playQueue_capacity \<and>
   length (playQueue (globals (exec sample_env (running full_queue)
                                 [Consume, Event (key_down 98), Event (key_down 99)])))
     \<le> playQueue_capacity"
proof -
  have 1: "length (playQueue full_queue) = playQueue_capacity"
    by (simp add: full_queue_def playQueue_capacity_def)
  have 2: "length (playQueue (globals (running full_queue))) \<le> playQueue_capacity"
    by (simp add: running_def 1)
  from playQueue_full_drops
         [of full_queue "''b.wav''" "rune_of CHR ''b''" sample_env "key_down 98"
             "running full_queue" "[Consume, Event (key_down 98), Event (key_down 99)]"] 1 2
  show ?thesis by blast
qed

subsection \<open>The sound cache\<close>

lemma loadSound_hit:
  "soundCache s p = Some b \<Longrightarrow> loadSound env s p = (Inr (b, canonical_format), s)"
  by (simp add: loadSound_def)

lemma loadSound_miss:
  "soundCache s p = None \<Longrightarrow> loadSound env s p = storeDecoded s p (decodeAsset env p)"
  by (simp add: loadSound_def)

lemma loadSound_ok_cached:
  "loadSound env s p = (Inr (b, f), s1) \<Longrightarrow> soundCache s1 p = Some b"
  by (auto simp: loadSound_def storeDecoded_def Let_def
           split: option.splits sum.splits prod.splits)

lemma loadSound_failed_same:
  "loadSound env s p = (Inl err, s1) \<Longrightarrow>
   s1 = s \<and> soundCache s p = None \<and> decodeAsset env p = Inl err"
  by (auto simp: loadSound_def storeDecoded_def Let_def
           split: option.splits sum.splits prod.splits)

lemma loadSound_decode_failed:
  "soundCache s p = None \<Longrightarrow> decodeAsset env p = Inl err \<Longrightarrow>
   loadSound env s p = (Inl err, s)"
  by (simp add: loadSound_def storeDecoded_def)

lemma loadSound_decoded:
  "soundCache s p = None \<Longrightarrow> decodeAsset env p = Inr (streamer, format) \<Longrightarrow>
   loadSound env s p =
     (Inr (\<lparr>buf_format = format, buf_data = streamer\<rparr>, format),
      s\<lparr>soundCache := (soundCache s)(p \<mapsto> \<lparr>buf_format = format, buf_data = streamer\<rparr>)\<rparr>)"
  by (simp add: loadSound_def storeDecoded_def Let_def)

lemma sample_a:
  "loadSound sample_env initial_state ''a.wav'' = (Inr (a_buffer, canonical_format), a_cached)"
  by (simp add: loadSound_def decodeAsset_def storeDecoded_def sample_env_def sample_Open_def
        sample_wav_def HasSuffix_def initial_state_def a_buffer_def a_cached_def Let_def)

lemma sample_b:
  "loadSound sample_env initial_state ''b.wav'' =
     (Inl ''wav: missing RIFF at the beginning'', initial_state)"
  by (simp add: loadSound_def decodeAsset_def storeDecoded_def sample_env_def sample_Open_def
        sample_wav_def HasSuffix_def initial_state_def)

text \<open>
  C4.  When a call of \<^verbatim>\<open>loadSound\<close> for a path succeeds, the next call for the same
  path returns the same buffer, hence the same samples, and leaves the state as
  it is.  It does so in every environment, also in one where no asset can be
  opened or decoded: the second call reads the cache only.
\<close>

theorem loadSound_twice:
  assumes "loadSound env s soundPath = (Inr (buffer, format), s1)"
  shows "loadSound env' s1 soundPath = (Inr (buffer, canonical_format), s1) \<and>
         buf_data (fst (projr (fst (loadSound env' s1 soundPath)))) = buf_data buffer"
proof -
  from assms have "soundCache s1 soundPath = Some buffer"
    by (rule loadSound_ok_cached)
  then have "loadSound env' s1 soundPath = (Inr (buffer, canonical_format), s1)"
    by (rule loadSound_hit)
  then show ?thesis by simp
qed

theorem loadSound_twice_witness:
  "loadSound sample_env initial_state ''a.wav'' = (Inr (a_buffer, canonical_format), a_cached) \<and>
   loadSound bare_env a_cached ''a.wav'' = (Inr (a_buffer, canonical_format), a_cached) \<and>
   buf_data (fst (projr (fst (loadSound bare_env a_cached ''a.wav'')))) = buf_data a_buffer"
  using loadSound_twice [OF sample_a, of bare_env] sample_a by simp

text \<open>
  C10.  When a call of \<^verbatim>\<open>loadSound\<close> fails, the state is what it was before the
  call, and the cache has no entry for the path.  A later call for the same
  path is a miss again: it opens and decodes the asset anew, whatever the
  environment then answers, and in the same environment it fails with the
  same error.
\<close>

theorem failed_load_not_cached:
  assumes "loadSound env s soundPath = (Inl err, s1)"
  shows "s1 = s \<and> soundCache s1 soundPath = None \<and>
         loadSound env' s1 soundPath = storeDecoded s soundPath (decodeAsset env' soundPath) \<and>
         loadSound env s1 soundPath = (Inl err, s1)"
proof -
  from assms have same: "s1 = s" and miss: "soundCache s soundPath = None"
    and failed: "decodeAsset env soundPath = Inl err"
    by (auto dest: loadSound_failed_same)
  from miss have "loadSound env' s soundPath = storeDecoded s soundPath (decodeAsset env' soundPath)"
    by (rule loadSound_miss)
  moreover from miss failed have "loadSound env s soundPath = (Inl err, s)"
    by (rule loadSound_decode_failed)
  ultimately show ?thesis using same miss by simp
qed

theorem failed_load_not_cached_witness:
  "loadSound sample_env initial_state ''b.wav'' =
     (Inl ''wav: missing RIFF at the beginning'', initial_state) \<and>
   soundCache initial_state ''b.wav'' = None \<and>
   loadSound bare_env initial_state ''b.wav'' =
     storeDecoded initial_state ''b.wav'' (decodeAsset bare_env ''b.wav'') \<and>
   loadSound sample_env initial_state ''b.wav'' =
     (Inl ''wav: missing RIFF at the beginning'', initial_state)"
  using failed_load_not_cached [OF sample_b, of bare_env] sample_b by simp

text \<open>
  C5, as the specification states it, does not hold: nothing converts the
  decoded samples.  The asset \<^verbatim>\<open>lo.wav\<close> of the sample environment decodes to
  22050 Hz mono, and the buffer stored for it has that format.
\<close>

theorem cached_clip_not_canonical:
  "soundCache initial_state ''lo.wav'' = None \<and>
   loadSound sample_env initial_state ''lo.wav'' = (Inr (lo_buffer, lo_format), lo_cached) \<and>
   soundCache lo_cached ''lo.wav'' = Some lo_buffer \<and>
   buf_format lo_buffer \<noteq> canonical_format"
  by (simp add: loadSound_def decodeAsset_def storeDecoded_def sample_env_def sample_Open_def
        sample_wav_def HasSuffix_def initial_state_def lo_buffer_def lo_cached_def Let_def
        lo_format_def canonical_format_def)

text \<open>
  C5, amended.  On a miss \<^verbatim>\<open>loadSound\<close> opens the asset, decodes it as MP3 when the
  path ends in \<^verbatim>\<open>.mp3\<close> and as WAV when it ends in \<^verbatim>\<open>.wav\<close>, and when that
  succeeds it builds a buffer in the format that the decoder reported, holding
  every decoded sample, stores it under the path, and returns it together with
  that format.
\<close>

theorem miss_stores_decoded:
  assumes "soundCache s soundPath = None"
    and "soundFiles_Open env (''sounds/'' @ soundPath) = Inr a"
    and "(HasSuffix soundPath ''.mp3'' \<and> mp3_Decode env a = Inr (streamer, format)) \<or>
         (\<not> HasSuffix soundPath ''.mp3'' \<and> HasSuffix soundPath ''.wav'' \<and>
            wav_Decode env a = Inr (streamer, format))"
  shows "loadSound env s soundPath =
           (Inr (\<lparr>buf_format = format, buf_data = streamer\<rparr>, format),
            s\<lparr>soundCache :=
                (soundCache s)(soundPath \<mapsto> \<lparr>buf_format = format, buf_data = streamer\<rparr>)\<rparr>)"
proof -
  from assms(2,3) have "decodeAsset env soundPath = Inr (streamer, format)"
    by (auto simp: decodeAsset_def)
  with assms(1) show ?thesis by (rule loadSound_decoded)
qed

theorem miss_stores_decoded_witness:
  "soundCache initial_state ''c.mp3'' = None \<and>
   soundFiles_Open sample_env (''sounds/'' @ ''c.mp3'') = Inr ''ID3-c'' \<and>
   HasSuffix ''c.mp3'' ''.mp3'' \<and>
   mp3_Decode sample_env ''ID3-c'' = Inr ([(5, 5)], canonical_format) \<and>
   loadSound sample_env initial_state ''c.mp3'' =
     (Inr (\<lparr>buf_format = canonical_format, buf_data = [(5, 5)]\<rparr>, canonical_format),
      initial_state\<lparr>soundCache :=
        (soundCache initial_state)
          (''c.mp3'' \<mapsto> \<lparr>buf_format = canonical_format, buf_data = [(5, 5)]\<rparr>)\<rparr>)"
proof -
  have 1: "soundCache initial_state ''c.mp3'' = None"
    by (simp add: initial_state_def)
  have 2: "soundFiles_Open sample_env (''sounds/'' @ ''c.mp3'') = Inr ''ID3-c''"
    by (simp add: sample_env_def sample_Open_def)
  have 3: "HasSuffix ''c.mp3'' ''.mp3''"
    by (simp add: HasSuffix_def)
  have 4: "mp3_Decode sample_env ''ID3-c'' = Inr ([(5, 5)], canonical_format)"
    by (simp add: sample_env_def sample_mp3_def)
  from miss_stores_decoded [OF 1 2, of "[(5, 5)]" canonical_format] 1 2 3 4
  show ?thesis by blast
qed

subsection \<open>Failing loads\<close>

lemma playSound_load_failed:
  "loadSound env s p = (Inl err, s) \<Longrightarrow>
   playSound env s p = ((if verbose s then say (FailedToLoad p err) s else s), None)"
  by (simp add: playSound_def)

text \<open>
  C7.  When the asset of a path that is not cached cannot be opened, or has
  neither of the two suffixes, or its decoder fails, \<^verbatim>\<open>loadSound\<close> returns the
  error of the failing call (or the error naming the unsupported format) and
  leaves the state as it is; \<^verbatim>\<open>playSound\<close> hands nothing to the speaker and only
  prints when \<^verbatim>\<open>verbose\<close> is set; and the consumer, having taken the path from the
  queue, is at the head of its loop again, with the rest of the queue before
  it.  Every function is total: no input makes the model stop.
\<close>

theorem load_failure_skipped:
  assumes "soundCache s soundPath = None"
    and "soundFiles_Open env (''sounds/'' @ soundPath) = Inl err \<or>
         (\<exists>a. soundFiles_Open env (''sounds/'' @ soundPath) = Inr a \<and>
              (if HasSuffix soundPath ''.mp3'' then mp3_Decode env a = Inl err
               else if HasSuffix soundPath ''.wav'' then wav_Decode env a = Inl err
               else err = ''unsupported format: '' @ soundPath))"
  shows "loadSound env s soundPath = (Inl err, s) \<and>
         playSound env s soundPath =
           ((if verbose s then say (FailedToLoad soundPath err) s else s), None) \<and>
         consume env \<lparr>globals = s\<lparr>playQueue := soundPath # q\<rparr>, consumer = Receiving,
                      speaker = sp, audio = au\<rparr> =
           \<lparr>globals = (if verbose s then say (FailedToLoad soundPath err) (s\<lparr>playQueue := q\<rparr>)
                       else s\<lparr>playQueue := q\<rparr>),
            consumer = Receiving, speaker = sp, audio = au\<rparr>"
proof -
  from assms(2) have d: "decodeAsset env soundPath = Inl err"
    by (auto simp: decodeAsset_def split: if_splits)
  have l: "loadSound env s' soundPath = (Inl err, s')" if "soundCache s' soundPath = None" for s'
    using that d by (rule loadSound_decode_failed)
  have 1: "loadSound env s soundPath = (Inl err, s)"
    using assms(1) by (rule l)
  have 2: "loadSound env (s\<lparr>playQueue := q\<rparr>) soundPath = (Inl err, s\<lparr>playQueue := q\<rparr>)"
    using assms(1) by (intro l) simp
  show ?thesis
    using 1 2 by (simp add: playSound_load_failed consume_def)
qed

theorem load_failure_skipped_witness:
  "soundCache a_cached ''z.wav'' = None \<and>
   soundFiles_Open sample_env (''sounds/'' @ ''z.wav'') =
     Inl ''open sounds/z.wav: file does not exist'' \<and>
   loadSound sample_env a_cached ''z.wav'' =
     (Inl ''open sounds/z.wav: file does not exist'', a_cached) \<and>
   playSound sample_env a_cached ''z.wav'' = (a_cached, None) \<and>
   consume sample_env
     \<lparr>globals = a_cached\<lparr>playQueue := [''z.wav'', ''a.wav'']\<rparr>, consumer = Receiving,
      speaker = [], audio = []\<rparr> =
     \<lparr>globals = a_cached\<lparr>playQueue := [''a.wav'']\<rparr>, consumer = Receiving,
      speaker = [], audio = []\<rparr> \<and>
   audio (exec sample_env
            \<lparr>globals = a_cached\<lparr>playQueue := [''z.wav'', ''a.wav'']\<rparr>, consumer = Receiving,
             speaker = [], audio = []\<rparr> [Consume, Consume]) = [PlayBegin a_buffer]"
proof -
  have 1: "soundCache a_cached ''z.wav'' = None"
    by (simp add: a_cached_def initial_state_def)
  have 2: "soundFiles_Open sample_env (''sounds/'' @ ''z.wav'') =
             Inl ''open sounds/z.wav: file does not exist''"
    by (simp add: sample_env_def sample_Open_def)
  have 3: "\<not> verbose a_cached"
    by (simp add: a_cached_def initial_state_def)
  have 4: "audio (consume sample_env
             \<lparr>globals = a_cached\<lparr>playQueue := [''a.wav'']\<rparr>, consumer = Receiving,
              speaker = [], audio = []\<rparr>) = [PlayBegin a_buffer]"
    by (simp add: consume_def playSound_def loadSound_def initSpeaker_def sample_env_def
          a_cached_def initial_state_def Let_def)
  from load_failure_skipped [OF 1 disjI1, OF 2, of "[''a.wav'']" "[]" "[]"] 1 2 3 4
  show ?thesis by simp
qed
subsection \<open>Dispatch of a key character\<close>

lemma eq_char_of_iff: "n < 256 \<Longrightarrow> (c = char_of n) = (rune_of c = n)"
  by (auto simp: rune_of_def)

lemma phonicsMap_table: "phonicsMap = map (\<lambda>n. (n, char_of n # ''.wav'')) [97..<123]"
  by (simp add: phonicsMap_def upt_rec eq_char_of_iff) (simp add: rune_of_def)

lemma map_of_tabulate:
  "map_of (map (\<lambda>n. (n, f n)) xs) c = (if c \<in> set xs then Some (f c) else None)"
  by (induction xs) auto

lemma phonicsMap_lookup:
  "map_of phonicsMap c = (if 97 \<le> c \<and> c \<le> 122 then Some (char_of c # ''.wav'') else None)"
  unfolding phonicsMap_table map_of_tabulate set_upt atLeastLessThan_iff by auto

lemma rune_of_char_of: "n < 256 \<Longrightarrow> rune_of (char_of n) = n"
  by (simp add: rune_of_def)

lemma lowered_ascii:
  assumes "k < 128"
  shows "lowered env k = (if 65 \<le> k \<and> k \<le> 90 then k + 32 else k)"
proof -
  from assms have v: "utf8_valid k = k"
    by (simp add: utf8_valid_def MaxRune_def)
  from assms have s: "string_of_rune k = [char_of k]"
    by (simp add: string_of_rune_def v utf8_encode_def)
  from assms have r: "rune_of (char_of k) = k" by (simp add: rune_of_char_of)
  from assms show ?thesis
    by (simp add: lowered_def ToLower_string_of_rune_def s r ascii_lower_def rune_of_char_of)
       (simp add: rune_of_def)
qed

lemma first_byte_high:
  assumes "128 \<le> r"
  shows "192 \<le> rune_of (hd (string_of_rune r))"
proof -
  define v where "v = utf8_valid r"
  from assms have v: "128 \<le> v" "v \<le> 0x10FFFF"
    by (auto simp: v_def utf8_valid_def RuneError_def MaxRune_def)
  have a: "v < 0x800 \<Longrightarrow> 192 + v div 64 < 256" by simp
  have b: "v < 0x10000 \<Longrightarrow> 224 + v div 4096 < 256" by simp
  from v have c: "240 + v div 262144 < 256" by simp
  from v a b c show ?thesis
    unfolding string_of_rune_def v_def [symmetric] utf8_encode_def
    by (simp add: rune_of_char_of)
qed

lemma lowered_other:
  assumes "128 \<le> k"
  shows "lowered env k = rune_of (hd (string_of_rune (unicode_ToLower env (utf8_valid k))))"
proof -
  from first_byte_high [OF assms] have "\<not> rune_of (hd (string_of_rune k)) < 128" by simp
  moreover have "string_of_rune k \<noteq> []"
    by (simp add: string_of_rune_def utf8_encode_def)
  ultimately have "\<not> list_all (\<lambda>c. rune_of c < 0x80) (string_of_rune k)"
    by (cases "string_of_rune k") auto
  then show ?thesis
    by (simp add: lowered_def ToLower_string_of_rune_def)
qed

lemma lowered_other_ascii:
  assumes "128 \<le> k" "unicode_ToLower env (utf8_valid k) < 128"
  shows "lowered env k = unicode_ToLower env (utf8_valid k)"
  using assms
  by (simp add: lowered_other string_of_rune_def utf8_valid_def [of "unicode_ToLower env (utf8_valid k)"]
        MaxRune_def utf8_encode_def rune_of_char_of)

lemma lowered_other_high:
  assumes "128 \<le> k" "128 \<le> unicode_ToLower env (utf8_valid k)"
  shows "192 \<le> lowered env k"
  using assms by (simp add: lowered_other first_byte_high)

text \<open>
  C6, as the specification states it, does not hold: the match is not
  restricted to the 26 Latin letters.  Line 242 lower-cases the key character
  with \<^verbatim>\<open>strings.ToLower\<close>, which follows the Unicode table, and the Kelvin sign
  and the capital I with a dot above, neither of them one of the 52 forms of
  the Latin letters, are lower-cased to \<^verbatim>\<open>k\<close> and to \<^verbatim>\<open>i\<close>: a key-down event with
  either enqueues \<^verbatim>\<open>k.wav\<close> or \<^verbatim>\<open>i.wav\<close>.
\<close>

theorem kelvin_sign_dispatches:
  "\<not> (rune_of CHR ''a'' \<le> 0x212A \<and> 0x212A \<le> rune_of CHR ''z'') \<and>
   \<not> (rune_of CHR ''A'' \<le> 0x212A \<and> 0x212A \<le> rune_of CHR ''Z'') \<and>
   map_of phonicsMap (lowered sample_env 0x212A) = Some ''k.wav'' \<and>
   playQueue (mainEvent sample_env initial_state (key_down 0x212A)) = [''k.wav''] \<and>
   \<not> (rune_of CHR ''a'' \<le> 0x130 \<and> 0x130 \<le> rune_of CHR ''z'') \<and>
   \<not> (rune_of CHR ''A'' \<le> 0x130 \<and> 0x130 \<le> rune_of CHR ''Z'') \<and>
   map_of phonicsMap (lowered sample_env 0x130) = Some ''i.wav'' \<and>
   playQueue (mainEvent sample_env initial_state (key_down 0x130)) = [''i.wav'']"
proof -
  have k: "lowered sample_env 0x212A = 0x6B"
    by (rule trans [OF lowered_other_ascii])
       (simp_all add: sample_env_def sample_ToLower_def utf8_valid_def MaxRune_def)
  have i: "lowered sample_env 0x130 = 0x69"
    by (rule trans [OF lowered_other_ascii])
       (simp_all add: sample_env_def sample_ToLower_def utf8_valid_def MaxRune_def)
  have mk: "map_of phonicsMap 0x6B = Some ''k.wav''"
    by (simp add: phonicsMap_def rune_of_def)
  have mi: "map_of phonicsMap 0x69 = Some ''i.wav''"
    by (simp add: phonicsMap_def rune_of_def)
  have room: "length (playQueue initial_state) < playQueue_capacity"
    by (simp add: initial_state_def playQueue_capacity_def)
  have e: "playQueue initial_state = []"
    by (simp add: initial_state_def)
  show ?thesis
    using room
    by (simp add: k i mk mi e playQueue_mainEvent playQueue_handleKeyPress key_down_def
          rune_of_def)
qed

text \<open>
  C6, amended.  The table has 26 entries.  Dispatch lower-cases the key
  character with \<^verbatim>\<open>strings.ToLower\<close> and looks the first byte of the result up in
  the table.  For every letter \<open>L\<close> from \<^verbatim>\<open>a\<close> to \<^verbatim>\<open>z\<close>, the key character \<open>L\<close>
  and its upper-case form (32 below it) both dispatch to the identifier \<open>L\<close>
  followed by \<^verbatim>\<open>.wav\<close>, and a key-down event with either enqueues that
  identifier when the queue has room.  Every key character below 128 that is
  not a letter has no match, and an event with it leaves the queue as it is.
  A key character from 128 on has a match exactly when \<^verbatim>\<open>unicode.ToLower\<close> sends
  it to one of \<^verbatim>\<open>a\<close> to \<^verbatim>\<open>z\<close>; the match is then the identifier of that letter,
  which a key-down event enqueues when the queue has room, and otherwise
  nothing is enqueued.
\<close>

theorem dispatch_lowered_letter:
  "length phonicsMap = 26 \<and>
   (rune_of CHR ''a'' \<le> rune_of L \<and> rune_of L \<le> rune_of CHR ''z'' \<longrightarrow>
      map_of phonicsMap (lowered env (rune_of L)) = Some (L # ''.wav'') \<and>
      map_of phonicsMap (lowered env (rune_of L - 32)) = Some (L # ''.wav'') \<and>
      (length (playQueue s) < playQueue_capacity \<longrightarrow>
         playQueue (mainEvent env s (key_down (rune_of L))) = playQueue s @ [L # ''.wav''] \<and>
         playQueue (mainEvent env s (key_down (rune_of L - 32))) = playQueue s @ [L # ''.wav''])) \<and>
   (k < 128 \<and> \<not> (rune_of CHR ''a'' \<le> k \<and> k \<le> rune_of CHR ''z'') \<and>
     \<not> (rune_of CHR ''A'' \<le> k \<and> k \<le> rune_of CHR ''Z'') \<longrightarrow>
      map_of phonicsMap (lowered env k) = None \<and>
      playQueue (mainEvent env s (ev\<lparr>Keychar := k\<rparr>)) = playQueue s) \<and>
   (128 \<le> k \<longrightarrow>
      map_of phonicsMap (lowered env k) =
        (if rune_of CHR ''a'' \<le> unicode_ToLower env (utf8_valid k) \<and>
            unicode_ToLower env (utf8_valid k) \<le> rune_of CHR ''z''
         then Some (char_of (unicode_ToLower env (utf8_valid k)) # ''.wav'')
         else None) \<and>
      playQueue (mainEvent env s (ev\<lparr>Keychar := k\<rparr>)) =
        (if Kind ev = 3 \<and> length (playQueue s) < playQueue_capacity \<and>
            rune_of CHR ''a'' \<le> unicode_ToLower env (utf8_valid k) \<and>
            unicode_ToLower env (utf8_valid k) \<le> rune_of CHR ''z''
         then playQueue s @ [char_of (unicode_ToLower env (utf8_valid k)) # ''.wav'']
         else playQueue s))"
proof (intro conjI impI)
  show "length phonicsMap = 26" by (simp add: phonicsMap_def)
next
  assume a: "rune_of CHR ''a'' \<le> rune_of L \<and> rune_of L \<le> rune_of CHR ''z''"
  then have r: "97 \<le> rune_of L" "rune_of L \<le> 122" by (simp_all add: rune_of_def)
  then have c: "char_of (rune_of L) = L" by (simp add: rune_of_def)
  from r show lo: "map_of phonicsMap (lowered env (rune_of L)) = Some (L # ''.wav'')"
    by (simp add: lowered_ascii phonicsMap_lookup c)
  from r have u: "65 \<le> rune_of L - 32" "rune_of L - 32 \<le> 90"
    "rune_of L - 32 + 32 = rune_of L" "rune_of L - 32 < 128"
    by arith+
  have "lowered env (rune_of L - 32) = rune_of L"
    by (simp add: lowered_ascii u)
  with r show up: "map_of phonicsMap (lowered env (rune_of L - 32)) = Some (L # ''.wav'')"
    by (simp add: phonicsMap_lookup c)
  assume room: "length (playQueue s) < playQueue_capacity"
  from r lo room
  show "playQueue (mainEvent env s (key_down (rune_of L))) = playQueue s @ [L # ''.wav'']"
    by (simp add: playQueue_mainEvent playQueue_handleKeyPress key_down_def)
  from u up room
  show "playQueue (mainEvent env s (key_down (rune_of L - 32))) = playQueue s @ [L # ''.wav'']"
    by (simp add: playQueue_mainEvent playQueue_handleKeyPress key_down_def)
next
  assume a: "k < 128 \<and> \<not> (rune_of CHR ''a'' \<le> k \<and> k \<le> rune_of CHR ''z'') \<and>
     \<not> (rune_of CHR ''A'' \<le> k \<and> k \<le> rune_of CHR ''Z'')"
  then have k: "k < 128" "\<not> (97 \<le> k \<and> k \<le> 122)" "\<not> (65 \<le> k \<and> k \<le> 90)"
    by (simp_all add: rune_of_def)
  then show n: "map_of phonicsMap (lowered env k) = None"
    by (simp add: lowered_ascii phonicsMap_lookup)
  then show "playQueue (mainEvent env s (ev\<lparr>Keychar := k\<rparr>)) = playQueue s"
    by (simp add: playQueue_mainEvent playQueue_handleKeyPress)
next
  assume k: "128 \<le> k"
  let ?u = "unicode_ToLower env (utf8_valid k)"
  have ab: "rune_of CHR ''a'' = 97" "rune_of CHR ''z'' = 122"
    by (simp_all add: rune_of_def)
  show m: "map_of phonicsMap (lowered env k) =
        (if rune_of CHR ''a'' \<le> ?u \<and> ?u \<le> rune_of CHR ''z''
         then Some (char_of ?u # ''.wav'') else None)"
  proof (cases "?u < 128")
    case True
    with k have "lowered env k = ?u" by (simp add: lowered_other_ascii)
    then show ?thesis by (simp add: phonicsMap_lookup ab)
  next
    case False
    with k have "192 \<le> lowered env k" by (simp add: lowered_other_high)
    with False show ?thesis by (simp add: phonicsMap_lookup ab)
  qed
  from k have nz: "k \<noteq> 0" by simp
  show "playQueue (mainEvent env s (ev\<lparr>Keychar := k\<rparr>)) =
        (if Kind ev = 3 \<and> length (playQueue s) < playQueue_capacity \<and>
            rune_of CHR ''a'' \<le> ?u \<and> ?u \<le> rune_of CHR ''z''
         then playQueue s @ [char_of ?u # ''.wav'']
         else playQueue s)"
    using nz by (simp add: playQueue_mainEvent playQueue_handleKeyPress m)
qed

theorem dispatch_lowered_letter_witness:
  "rune_of CHR ''a'' \<le> rune_of CHR ''k'' \<and> rune_of CHR ''k'' \<le> rune_of CHR ''z'' \<and>
   map_of phonicsMap (lowered sample_env (rune_of CHR ''k'')) = Some ''k.wav'' \<and>
   map_of phonicsMap (lowered sample_env (rune_of CHR ''k'' - 32)) = Some ''k.wav'' \<and>
   length (playQueue initial_state) < playQueue_capacity \<and>
   playQueue (mainEvent sample_env initial_state (key_down (rune_of CHR ''k''))) =
     playQueue initial_state @ [''k.wav''] \<and>
   playQueue (mainEvent sample_env initial_state (key_down (rune_of CHR ''k'' - 32))) =
     playQueue initial_state @ [''k.wav''] \<and>
   map_of phonicsMap (lowered sample_env (rune_of CHR ''5'')) = None \<and>
   playQueue (mainEvent sample_env initial_state ((key_down 0)\<lparr>Keychar := rune_of CHR ''5''\<rparr>)) =
     playQueue initial_state \<and>
   unicode_ToLower sample_env (utf8_valid 0xC9) = 0xE9 \<and>
   map_of phonicsMap (lowered sample_env 0xC9) = None \<and>
   playQueue (mainEvent sample_env initial_state ((key_down 0)\<lparr>Keychar := 0xC9\<rparr>)) =
     playQueue initial_state \<and>
   unicode_ToLower sample_env (utf8_valid 0x212A) = 0x6B \<and>
   map_of phonicsMap (lowered sample_env 0x212A) = Some ''k.wav'' \<and>
   playQueue (mainEvent sample_env initial_state ((key_down 0)\<lparr>Keychar := 0x212A\<rparr>)) =
     playQueue initial_state @ [''k.wav'']"
proof -
  have 1: "rune_of CHR ''a'' \<le> rune_of CHR ''k'' \<and> rune_of CHR ''k'' \<le> rune_of CHR ''z''"
    by (simp add: rune_of_def)
  have 2: "length (playQueue initial_state) < playQueue_capacity"
    by (simp add: initial_state_def playQueue_capacity_def)
  have 3: "rune_of CHR ''5'' < 128 \<and>
           \<not> (rune_of CHR ''a'' \<le> rune_of CHR ''5'' \<and> rune_of CHR ''5'' \<le> rune_of CHR ''z'') \<and>
           \<not> (rune_of CHR ''A'' \<le> rune_of CHR ''5'' \<and> rune_of CHR ''5'' \<le> rune_of CHR ''Z'')"
    by (simp add: rune_of_def)
  have 4: "unicode_ToLower sample_env (utf8_valid 0xC9) = 0xE9"
    by (simp add: sample_env_def sample_ToLower_def utf8_valid_def MaxRune_def)
  have 5: "unicode_ToLower sample_env (utf8_valid 0x212A) = 0x6B"
    by (simp add: sample_env_def sample_ToLower_def utf8_valid_def MaxRune_def)
  have 6: "Kind (key_down 0) = 3" "char_of (0x6B :: nat) = CHR ''k''"
    by (simp_all add: key_down_def char_of_eq_iff)
  have 7: "rune_of CHR ''a'' = 97" "rune_of CHR ''z'' = 122"
    by (simp_all add: rune_of_def)
  from dispatch_lowered_letter
         [of "CHR ''k''" sample_env initial_state "rune_of CHR ''5''" "key_down 0"] 1 2 3
  have a: "map_of phonicsMap (lowered sample_env (rune_of CHR ''k'')) = Some ''k.wav'' \<and>
     map_of phonicsMap (lowered sample_env (rune_of CHR ''k'' - 32)) = Some ''k.wav'' \<and>
     playQueue (mainEvent sample_env initial_state (key_down (rune_of CHR ''k''))) =
       playQueue initial_state @ [''k.wav''] \<and>
     playQueue (mainEvent sample_env initial_state (key_down (rune_of CHR ''k'' - 32))) =
       playQueue initial_state @ [''k.wav''] \<and>
     map_of phonicsMap (lowered sample_env (rune_of CHR ''5'')) = None \<and>
     playQueue (mainEvent sample_env initial_state ((key_down 0)\<lparr>Keychar := rune_of CHR ''5''\<rparr>)) =
       playQueue initial_state"
    by blast
  from dispatch_lowered_letter
         [of "CHR ''k''" sample_env initial_state "0xC9" "key_down 0"]
  have b: "map_of phonicsMap (lowered sample_env 0xC9) = None \<and>
     playQueue (mainEvent sample_env initial_state ((key_down 0)\<lparr>Keychar := 0xC9\<rparr>)) =
       playQueue initial_state"
    by (simp add: 4 7)
  from dispatch_lowered_letter
         [of "CHR ''k''" sample_env initial_state "0x212A" "key_down 0"]
  have c: "map_of phonicsMap (lowered sample_env 0x212A) = Some ''k.wav'' \<and>
     playQueue (mainEvent sample_env initial_state ((key_down 0)\<lparr>Keychar := 0x212A\<rparr>)) =
       playQueue initial_state @ [''k.wav'']"
    by (simp add: 2 5 6 7)
  from 1 2 4 5 a b c show ?thesis by blast
qed

subsection \<open>Preloading\<close>

lemma soundCache_loadSound:
  "soundCache (snd (loadSound env s p)) q =
     (if q = p \<and> soundCache s p = None then decoded_buffer env p else soundCache s q)"
  by (auto simp: loadSound_def storeDecoded_def decoded_buffer_def Let_def
           split: option.splits sum.splits prod.splits)

lemma preloadLoop_Cons:
  "preloadLoop env s (p # ps) =
     preloadLoop env
       (let s1 = snd (loadSound env s p) in
        if isl (fst (loadSound env s p)) \<and> verbose s1
        then say (FailedToPreload p (projl (fst (loadSound env s p)))) s1 else s1) ps"
  by (cases "loadSound env s p") (auto simp: Let_def split: sum.splits)

declare preloadLoop.simps(2) [simp del]

lemma soundCache_preloadLoop:
  "soundCache (preloadLoop env s ps) q =
     (if q \<in> set ps \<and> soundCache s q = None then decoded_buffer env q else soundCache s q)"
proof (induction ps arbitrary: s)
  case Nil
  then show ?case by simp
next
  case (Cons p ps)
  show ?case
    by (auto simp: preloadLoop_Cons Cons.IH Let_def soundCache_loadSound)
qed

lemma soundCache_preloadSounds:
  "soundCache (preloadSounds env order s) q =
     (if q \<in> snd ` set order \<and> soundCache s q = None then decoded_buffer env q
      else soundCache s q)"
  by (auto simp: preloadSounds_def Let_def soundCache_preloadLoop)

lemma verbose_preloadLoop: "verbose (preloadLoop env s ps) = verbose s"
proof (induction ps arbitrary: s)
  case Nil
  then show ?case by simp
next
  case (Cons p ps)
  obtain r s1 where l: "loadSound env s p = (r, s1)" by (cases "loadSound env s p")
  from loadSound_frame [OF l] show ?case
    by (simp add: preloadLoop_Cons Cons.IH l Let_def)
qed

lemma printed_preloadLoop_mono: "set (printed s) \<subseteq> set (printed (preloadLoop env s ps))"
proof (induction ps arbitrary: s)
  case Nil
  then show ?case by simp
next
  case (Cons p ps)
  obtain r s1 where l: "loadSound env s p = (r, s1)" by (cases "loadSound env s p")
  let ?s2 = "if isl r \<and> verbose s1 then say (FailedToPreload p (projl r)) s1 else s1"
  from loadSound_frame [OF l] have "set (printed s) \<subseteq> set (printed ?s2)"
    by (auto simp: say_def)
  also have "\<dots> \<subseteq> set (printed (preloadLoop env ?s2 ps))" by (rule Cons.IH)
  finally show ?case by (simp only: preloadLoop_Cons l Let_def fst_conv snd_conv)
qed

lemma failure_reported:
  "verbose s \<Longrightarrow> p \<in> set ps \<Longrightarrow> soundCache s p = None \<Longrightarrow> decodeAsset env p = Inl err \<Longrightarrow>
   FailedToPreload p err \<in> set (printed (preloadLoop env s ps))"
proof (induction ps arbitrary: s)
  case Nil
  then show ?case by simp
next
  case (Cons x ps)
  obtain r s1 where l: "loadSound env s x = (r, s1)" by (cases "loadSound env s x")
  let ?s2 = "if isl r \<and> verbose s1 then say (FailedToPreload x (projl r)) s1 else s1"
  have step: "preloadLoop env s (x # ps) = preloadLoop env ?s2 ps"
    by (simp add: preloadLoop_Cons l Let_def)
  from loadSound_frame [OF l] Cons.prems(1) have v: "verbose ?s2" by simp
  show ?case
  proof (cases "x = p")
    case True
    from Cons.prems(3,4) have "loadSound env s p = (Inl err, s)"
      by (rule loadSound_decode_failed)
    with l True have "r = Inl err" "s1 = s" by simp_all
    with Cons.prems(1) True have "FailedToPreload p err \<in> set (printed ?s2)"
      by (simp add: say_def)
    with printed_preloadLoop_mono [of ?s2 env ps] show ?thesis
      unfolding step by blast
  next
    case False
    with Cons.prems(2) have m: "p \<in> set ps" by simp
    have "soundCache s1 p = soundCache s p"
      using soundCache_loadSound [of env s x p] l False by simp
    with Cons.prems(3) have n: "soundCache ?s2 p = None" by simp
    from Cons.IH [OF v m n Cons.prems(4)] show ?thesis
      unfolding step .
  qed
qed

text \<open>
  C8.  The table has 26 entries, and the loop of \<^verbatim>\<open>preloadSounds\<close> visits each of
  them, in whatever order.  For every entry, after the preload the cache holds
  for its identifier what it held before or, when it held nothing, the buffer
  decoded from its asset when the decoding succeeds, and nothing when it
  fails.  This is so whatever happens to the other entries: a failure stops
  nothing.  With \<^verbatim>\<open>verbose\<close> set, the failure of every failing entry is printed,
  so every entry has been attempted.
\<close>

theorem preload_tolerates_failures:
  assumes "set order = set phonicsMap" and "(r, soundFile) \<in> set phonicsMap"
  shows "length phonicsMap = 26 \<and>
         soundCache (preloadSounds env order s) soundFile =
           (case soundCache s soundFile of
              Some buffer \<Rightarrow> Some buffer
            | None \<Rightarrow> decoded_buffer env soundFile) \<and>
         (verbose s \<and> soundCache s soundFile = None \<and> decodeAsset env soundFile = Inl err \<longrightarrow>
            FailedToPreload soundFile err \<in> set (printed (preloadSounds env order s)))"
proof (intro conjI impI)
  show "length phonicsMap = 26" by (simp add: phonicsMap_def)
next
  from assms have m: "soundFile \<in> snd ` set order" by force
  then show "soundCache (preloadSounds env order s) soundFile =
           (case soundCache s soundFile of
              Some buffer \<Rightarrow> Some buffer
            | None \<Rightarrow> decoded_buffer env soundFile)"
    by (simp add: soundCache_preloadSounds split: option.splits)
  assume a: "verbose s \<and> soundCache s soundFile = None \<and> decodeAsset env soundFile = Inl err"
  let ?s1 = "say Preloading s"
  from a m have "FailedToPreload soundFile err \<in> set (printed (preloadLoop env ?s1 (map snd order)))"
    by (intro failure_reported) simp_all
  with a show "FailedToPreload soundFile err \<in> set (printed (preloadSounds env order s))"
    by (simp add: preloadSounds_def Let_def verbose_preloadLoop say_def)
qed

theorem preload_tolerates_failures_witness:
  "set phonicsMap = set phonicsMap \<and>
   (rune_of CHR ''a'', ''a.wav'') \<in> set phonicsMap \<and>
   (rune_of CHR ''b'', ''b.wav'') \<in> set phonicsMap \<and>
   verbose verbose_state \<and> soundCache verbose_state ''b.wav'' = None \<and>
   decodeAsset sample_env ''b.wav'' = Inl ''wav: missing RIFF at the beginning'' \<and>
   soundCache (preloadSounds sample_env phonicsMap verbose_state) ''a.wav'' = Some a_buffer \<and>
   soundCache (preloadSounds sample_env phonicsMap verbose_state) ''b.wav'' = None \<and>
   FailedToPreload ''b.wav'' ''wav: missing RIFF at the beginning''
     \<in> set (printed (preloadSounds sample_env phonicsMap verbose_state))"
proof -
  have a: "(rune_of CHR ''a'', ''a.wav'') \<in> set phonicsMap"
    by (simp add: phonicsMap_def)
  have b: "(rune_of CHR ''b'', ''b.wav'') \<in> set phonicsMap"
    by (simp add: phonicsMap_def)
  have v: "verbose verbose_state" "soundCache verbose_state ''a.wav'' = None"
    "soundCache verbose_state ''b.wav'' = None"
    by (simp_all add: verbose_state_def initial_state_def)
  have da: "decoded_buffer sample_env ''a.wav'' = Some a_buffer"
    by (simp add: decoded_buffer_def decodeAsset_def sample_env_def sample_Open_def
          sample_wav_def HasSuffix_def a_buffer_def)
  have db: "decodeAsset sample_env ''b.wav'' = Inl ''wav: missing RIFF at the beginning''"
    by (simp add: decodeAsset_def sample_env_def sample_Open_def sample_wav_def HasSuffix_def)
  then have db': "decoded_buffer sample_env ''b.wav'' = None"
    by (simp add: decoded_buffer_def)
  from preload_tolerates_failures [OF refl a, of sample_env verbose_state] v da
  have 1: "soundCache (preloadSounds sample_env phonicsMap verbose_state) ''a.wav'' = Some a_buffer"
    by simp
  from preload_tolerates_failures
         [OF refl b, of sample_env verbose_state "''wav: missing RIFF at the beginning''"]
       v db db'
  have 2: "soundCache (preloadSounds sample_env phonicsMap verbose_state) ''b.wav'' = None \<and>
           FailedToPreload ''b.wav'' ''wav: missing RIFF at the beginning''
             \<in> set (printed (preloadSounds sample_env phonicsMap verbose_state))"
    by simp
  from a b v db 1 2 show ?thesis by simp
qed

subsection \<open>The order of the queue\<close>

lemma sample_env_fields:
  "soundFiles_Open sample_env = sample_Open"
  "mp3_Decode sample_env = sample_mp3"
  "wav_Decode sample_env = sample_wav"
  "speaker_Init sample_env = (\<lambda>_ _. None)"
  by (simp_all add: sample_env_def)

lemma lowered_sample:
  "lowered sample_env 97 = 97"
  "lowered sample_env 66 = 98"
  "lowered sample_env 99 = 99"
  by (simp_all add: lowered_ascii)

lemma phonicsMap_sample:
  "map_of phonicsMap 97 = Some ''a.wav''"
  "map_of phonicsMap 98 = Some ''b.wav''"
  "map_of phonicsMap 99 = Some ''c.wav''"
  by (simp_all add: phonicsMap_def rune_of_def)

lemmas sample_simps =
  lowered_sample phonicsMap_sample mainEvent_def handleKeyPress_def trySend_def
  playQueue_capacity_def consume_def deviceDone_def playSound_def loadSound_def
  storeDecoded_def decodeAsset_def initSpeaker_def sample_env_fields sample_Open_def rune_of_def
  sample_wav_def sample_mp3_def HasSuffix_def a_cached_def initial_state_def running_def
  key_down_def Let_def a_buffer_def sends_def receives_def accepted_def

lemma accepted_append [simp]: "accepted (xs @ ys) = accepted xs @ accepted ys"
  by (simp add: accepted_def)

lemma step_fifo:
  "receives c a @ playQueue (globals (step env c a)) =
     playQueue (globals c) @ accepted (sends env c a)"
proof (cases a)
  case (Event ev)
  show ?thesis
    unfolding Event
    apply (simp add: receives_def sends_def playQueue_mainEvent playQueue_handleKeyPress)
    apply (simp add: accepted_def trySend_def split: option.splits)
    done
next
  case Consume
  then show ?thesis
    by (cases "playQueue (globals c)")
       (simp_all add: receives_def sends_def accepted_def playQueue_consume)
next
  case (DeviceDone i)
  then show ?thesis by (simp add: receives_def sends_def accepted_def)
qed

lemma exec_fifo:
  "all_receives env c sched @ playQueue (globals (exec env c sched)) =
     playQueue (globals c) @ accepted (all_sends env c sched)"
proof (induction sched arbitrary: c)
  case Nil
  then show ?case by (simp add: accepted_def)
next
  case (Cons a as)
  have "all_receives env c (a # as) @ playQueue (globals (exec env c (a # as))) =
        receives c a @ (all_receives env (step env c a) as @
          playQueue (globals (exec env (step env c a) as)))"
    by simp
  also have "\<dots> = receives c a @ playQueue (globals (step env c a)) @
                   accepted (all_sends env (step env c a) as)"
    by (simp only: Cons.IH)
  also have "\<dots> = playQueue (globals c) @ accepted (sends env c a) @
                   accepted (all_sends env (step env c a) as)"
    using step_fifo [of c a env] by simp
  finally show ?case by simp
qed

text \<open>
  C2.  In every run, the identifiers that the consumer has received, followed
  by what the queue holds at the end, are what the queue held at the start
  followed by the identifiers of the accepted sends, in the order of the
  sends: the consumer receives in the order of sending.  In particular, three
  key presses that find at least three free slots append their identifiers
  \<open>A\<close>, \<open>B\<close>, \<open>C\<close> to the queue in this order, and a receive takes the
  identifier at the head of the queue and leaves the rest.
\<close>

theorem playQueue_fifo:
  "all_receives env c sched @ playQueue (globals (exec env c sched)) =
     playQueue (globals c) @ accepted (all_sends env c sched) \<and>
   (length (playQueue s) + 3 \<le> playQueue_capacity \<and>
    map_of phonicsMap ka = Some A \<and> map_of phonicsMap kb = Some B \<and>
    map_of phonicsMap kc = Some C \<longrightarrow>
      playQueue (handleKeyPress (handleKeyPress (handleKeyPress s ka) kb) kc) =
        playQueue s @ [A, B, C]) \<and>
   (consumer c = Receiving \<and> playQueue (globals c) = x # q \<longrightarrow>
      receives c Consume = [x] \<and> playQueue (globals (step env c Consume)) = q)"
proof (intro conjI impI)
  show "all_receives env c sched @ playQueue (globals (exec env c sched)) =
     playQueue (globals c) @ accepted (all_sends env c sched)"
    by (rule exec_fifo)
next
  assume "length (playQueue s) + 3 \<le> playQueue_capacity \<and>
    map_of phonicsMap ka = Some A \<and> map_of phonicsMap kb = Some B \<and>
    map_of phonicsMap kc = Some C"
  then show "playQueue (handleKeyPress (handleKeyPress (handleKeyPress s ka) kb) kc) =
        playQueue s @ [A, B, C]"
    by (simp add: playQueue_handleKeyPress)
next
  assume a: "consumer c = Receiving \<and> playQueue (globals c) = x # q"
  then show "receives c Consume = [x]" by (simp add: receives_def)
  from a show "playQueue (globals (step env c Consume)) = q"
    by (simp add: playQueue_consume)
qed

theorem playQueue_fifo_witness:
  "all_receives sample_env (running initial_state) three_keys = [''a.wav'', ''b.wav'', ''c.wav''] \<and>
   accepted (all_sends sample_env (running initial_state) three_keys) =
     [''a.wav'', ''b.wav'', ''c.wav''] \<and>
   playQueue (globals (exec sample_env (running initial_state) three_keys)) = [] \<and>
   length (playQueue initial_state) + 3 \<le> playQueue_capacity \<and>
   map_of phonicsMap 97 = Some ''a.wav'' \<and> map_of phonicsMap 98 = Some ''b.wav'' \<and>
   map_of phonicsMap 99 = Some ''c.wav'' \<and>
   playQueue (handleKeyPress (handleKeyPress (handleKeyPress initial_state 97) 98) 99) =
     playQueue initial_state @ [''a.wav'', ''b.wav'', ''c.wav''] \<and>
   consumer (running (initial_state\<lparr>playQueue := [''a.wav'', ''b.wav'']\<rparr>)) = Receiving \<and>
   playQueue (globals (running (initial_state\<lparr>playQueue := [''a.wav'', ''b.wav'']\<rparr>))) =
     [''a.wav'', ''b.wav''] \<and>
   receives (running (initial_state\<lparr>playQueue := [''a.wav'', ''b.wav'']\<rparr>)) Consume = [''a.wav''] \<and>
   playQueue (globals (step sample_env
       (running (initial_state\<lparr>playQueue := [''a.wav'', ''b.wav'']\<rparr>)) Consume)) = [''b.wav'']"
proof -
  let ?two = "running (initial_state\<lparr>playQueue := [''a.wav'', ''b.wav'']\<rparr>)"
  have 1: "accepted (all_sends sample_env (running initial_state) three_keys) =
             [''a.wav'', ''b.wav'', ''c.wav'']"
    by (simp add: three_keys_def sample_simps)
  have 2: "playQueue (globals (exec sample_env (running initial_state) three_keys)) = []"
    by (simp add: three_keys_def sample_simps)
  have 3: "length (playQueue initial_state) + 3 \<le> playQueue_capacity"
    by (simp add: initial_state_def playQueue_capacity_def)
  have 4: "consumer ?two = Receiving \<and> playQueue (globals ?two) = [''a.wav'', ''b.wav'']"
    by (simp add: running_def)
  have 5: "playQueue (globals (running initial_state)) = []"
    by (simp add: running_def initial_state_def)
  note f = playQueue_fifo
    [where env = sample_env and s = initial_state and ka = 97 and A = "''a.wav''"
       and kb = 98 and B = "''b.wav''" and kc = 99 and C = "''c.wav''"]
  from f [where c = "running initial_state" and sched = three_keys]
  have "all_receives sample_env (running initial_state) three_keys @
          playQueue (globals (exec sample_env (running initial_state) three_keys)) =
        playQueue (globals (running initial_state)) @
          accepted (all_sends sample_env (running initial_state) three_keys)"
    by (rule conjunct1)
  then have a: "all_receives sample_env (running initial_state) three_keys =
             [''a.wav'', ''b.wav'', ''c.wav'']"
    by (simp add: 1 2 5)
  from f [where c = ?two and sched = "[]" and x = "''a.wav''" and q = "[''b.wav'']"]
       3 4 phonicsMap_sample
  have b: "playQueue (handleKeyPress (handleKeyPress (handleKeyPress initial_state 97) 98) 99) =
             playQueue initial_state @ [''a.wav'', ''b.wav'', ''c.wav''] \<and>
           receives ?two Consume = [''a.wav''] \<and>
           playQueue (globals (step sample_env ?two Consume)) = [''b.wav'']"
    by blast
  from a b 1 2 3 4 phonicsMap_sample show ?thesis by blast
qed

subsection \<open>The flag \<^verbatim>\<open>verbose\<close>\<close>

lemma silent_say [simp]: "silent (say m s) = silent s"
  by (simp add: silent_def say_def)

lemma silent_fields [simp]:
  "playQueue (silent s) = playQueue s"
  "soundCache (silent s) = soundCache s"
  "speakerInitialized (silent s) = speakerInitialized s"
  "verbose (silent s) = False"
  by (simp_all add: silent_def)

lemma silent_silent [simp]: "silent (silent s) = silent s"
  by (simp add: silent_def)

lemma loadSound_silent:
  "loadSound env (silent s) p = (fst (loadSound env s p), silent (snd (loadSound env s p)))"
  by (simp add: loadSound_def storeDecoded_def Let_def silent_def
           split: option.splits sum.splits prod.splits)

lemma initSpeaker_silent:
  "initSpeaker env (silent s) = (fst (initSpeaker env s), silent (snd (initSpeaker env s)))"
  by (simp add: initSpeaker_def Let_def silent_def split: option.splits)

lemma playSound_silent:
  "playSound env (silent s) p = (silent (fst (playSound env s p)), snd (playSound env s p))"
proof -
  obtain r s1 where l: "loadSound env s p = (r, s1)" by (cases "loadSound env s p")
  obtain e s2 where i: "initSpeaker env s1 = (e, s2)" by (cases "initSpeaker env s1")
  from loadSound_frame [OF l] initSpeaker_frame [OF i] show ?thesis
    by (simp add: playSound_def loadSound_silent initSpeaker_silent l i
             split: sum.splits option.splits prod.splits)
qed

lemma handleKeyPress_silent: "handleKeyPress (silent s) char = silent (handleKeyPress s char)"
  by (simp add: handleKeyPress_def trySend_def Let_def split: option.splits)
     (simp add: silent_def)

lemma mainEvent_silent: "mainEvent env (silent s) ev = silent (mainEvent env s ev)"
  by (simp add: mainEvent_def Let_def handleKeyPress_silent [symmetric])

lemma preloadLoop_silent: "preloadLoop env (silent s) ps = silent (preloadLoop env s ps)"
proof (induction ps arbitrary: s)
  case Nil
  then show ?case by simp
next
  case (Cons p ps)
  show ?case
    by (simp add: preloadLoop_Cons loadSound_silent Let_def Cons.IH [symmetric])
qed

lemma preloadSounds_silent:
  "preloadSounds env order (silent s) = silent (preloadSounds env order s)"
  by (simp add: preloadSounds_def Let_def preloadLoop_silent verbose_preloadLoop)
     (simp add: preloadLoop_silent [symmetric])

lemma silent_startup:
  "silent_started (startup env order args s) =
     (if 1 < length args \<and> (args ! 1 = ''-h'' \<or> args ! 1 = ''--help'')
      then Exited 0 (silent s)
      else
        (case initSpeaker env (silent s) of
           (Some err, s2) \<Rightarrow> Exited 1 s2
         | (None, s2) \<Rightarrow> Started (preloadSounds env order s2)))"
proof -
  have v: "silent (t\<lparr>verbose := True\<rparr>) = silent t" for t
    by (simp add: silent_def)
  have i: "silent_started
             (case initSpeaker env t of
                (Some err, s2) \<Rightarrow> Exited 1 (say (FailedToInitAudio err) s2)
              | (None, s2) \<Rightarrow> Started (say Listening (preloadSounds env order s2))) =
           (case initSpeaker env (silent t) of
              (Some err, s2) \<Rightarrow> Exited 1 s2
            | (None, s2) \<Rightarrow> Started (preloadSounds env order s2))" for t
    by (cases "initSpeaker env t")
       (simp add: initSpeaker_silent preloadSounds_silent split: option.splits)
  show ?thesis
    by (auto simp: startup_def Let_def i v)
qed

lemma step_hush: "step env (hush c) a = hush (step env c a)"
proof (cases a)
  case (Event ev)
  then show ?thesis by (simp add: hush_def mainEvent_silent)
next
  case Consume
  have "consume env (hush c) = hush (consume env c)"
  proof (cases "playQueue (globals c)")
    case Nil
    then show ?thesis by (simp add: consume_def hush_def)
  next
    case (Cons x q)
    have u: "silent (globals c)\<lparr>playQueue := q\<rparr> = silent ((globals c)\<lparr>playQueue := q\<rparr>)"
      by (simp add: silent_def)
    show ?thesis
      by (cases "playSound env ((globals c)\<lparr>playQueue := q\<rparr>) x")
         (simp add: consume_def hush_def Cons u playSound_silent split: option.splits)
  qed
  with Consume show ?thesis by simp
next
  case (DeviceDone i)
  then show ?thesis by (simp add: hush_def deviceDone_def)
qed

lemma exec_hush: "exec env (hush c) sched = hush (exec env c sched)"
  by (induction sched arbitrary: c) (simp_all add: step_hush)

lemma configs_hush: "configs env (hush c) sched = map hush (configs env c sched)"
  by (induction sched arbitrary: c) (simp_all add: step_hush)

lemma sends_hush: "sends env (hush c) a = sends env c a"
  by (auto simp: sends_def hush_def split: action.splits option.splits)

lemma receives_hush: "receives (hush c) a = receives c a"
  by (simp add: receives_def hush_def split: action.splits)

lemma all_sends_hush: "all_sends env (hush c) sched = all_sends env c sched"
  by (induction sched arbitrary: c) (simp_all add: step_hush sends_hush)

lemma all_receives_hush: "all_receives env (hush c) sched = all_receives env c sched"
  by (induction sched arbitrary: c) (simp_all add: step_hush receives_hush)

lemma hush_verbose: "hush (c\<lparr>globals := (globals c)\<lparr>verbose := b\<rparr>\<rparr>) = hush c"
  by (simp add: hush_def silent_def)

text \<open>
  C9.  Two runs of the same actions from configurations that differ in the flag
  \<^verbatim>\<open>verbose\<close> only pass through the same configurations up to the flag and what
  is printed: the queue, the cache, the speaker flag, the consumer and the
  device are the same after every action.  The sends, with their identifiers
  and whether each was accepted, the receives, and the history of the device
  are the same.  The start of the program with \<^verbatim>\<open>-v\<close> or \<^verbatim>\<open>--verbose\<close> has the
  same result, up to the flag and what is printed, as the start without.
\<close>

theorem verbose_no_effect:
  "map hush (configs env (c\<lparr>globals := (globals c)\<lparr>verbose := True\<rparr>\<rparr>) sched) =
     map hush (configs env (c\<lparr>globals := (globals c)\<lparr>verbose := False\<rparr>\<rparr>) sched) \<and>
   all_sends env (c\<lparr>globals := (globals c)\<lparr>verbose := True\<rparr>\<rparr>) sched =
     all_sends env (c\<lparr>globals := (globals c)\<lparr>verbose := False\<rparr>\<rparr>) sched \<and>
   all_receives env (c\<lparr>globals := (globals c)\<lparr>verbose := True\<rparr>\<rparr>) sched =
     all_receives env (c\<lparr>globals := (globals c)\<lparr>verbose := False\<rparr>\<rparr>) sched \<and>
   audio (exec env (c\<lparr>globals := (globals c)\<lparr>verbose := True\<rparr>\<rparr>) sched) =
     audio (exec env (c\<lparr>globals := (globals c)\<lparr>verbose := False\<rparr>\<rparr>) sched) \<and>
   silent_started (startup env order [prog, ''-v''] s) = silent_started (startup env order [prog] s) \<and>
   silent_started (startup env order [prog, ''--verbose''] s) =
     silent_started (startup env order [prog] s)"
proof -
  let ?t = "c\<lparr>globals := (globals c)\<lparr>verbose := True\<rparr>\<rparr>"
  let ?f = "c\<lparr>globals := (globals c)\<lparr>verbose := False\<rparr>\<rparr>"
  have h: "hush ?t = hush ?f" by (simp add: hush_verbose)
  have 1: "map hush (configs env ?t sched) = map hush (configs env ?f sched)"
    by (simp add: configs_hush [symmetric] h)
  have 2: "all_sends env ?t sched = all_sends env ?f sched"
    using all_sends_hush [of env ?t sched] all_sends_hush [of env ?f sched] h by simp
  have 3: "all_receives env ?t sched = all_receives env ?f sched"
    using all_receives_hush [of env ?t sched] all_receives_hush [of env ?f sched] h by simp
  have "hush (exec env ?t sched) = hush (exec env ?f sched)"
    by (simp add: exec_hush [symmetric] h)
  then have "audio (hush (exec env ?t sched)) = audio (hush (exec env ?f sched))"
    by simp
  then have 4: "audio (exec env ?t sched) = audio (exec env ?f sched)"
    by (simp add: hush_def)
  show ?thesis
    by (simp add: 1 2 3 4 silent_startup)
qed

theorem verbose_no_effect_witness:
  "map hush (configs sample_env
       ((running initial_state)\<lparr>globals := (globals (running initial_state))\<lparr>verbose := True\<rparr>\<rparr>)
       one_key) =
     map hush (configs sample_env
       ((running initial_state)\<lparr>globals := (globals (running initial_state))\<lparr>verbose := False\<rparr>\<rparr>)
       one_key) \<and>
   all_sends sample_env
       ((running initial_state)\<lparr>globals := (globals (running initial_state))\<lparr>verbose := True\<rparr>\<rparr>)
       one_key = [(''a.wav'', True)] \<and>
   all_sends sample_env
       ((running initial_state)\<lparr>globals := (globals (running initial_state))\<lparr>verbose := False\<rparr>\<rparr>)
       one_key = [(''a.wav'', True)] \<and>
   audio (exec sample_env
       ((running initial_state)\<lparr>globals := (globals (running initial_state))\<lparr>verbose := True\<rparr>\<rparr>)
       one_key) = [PlayBegin a_buffer, PlayEnd a_buffer] \<and>
   audio (exec sample_env
       ((running initial_state)\<lparr>globals := (globals (running initial_state))\<lparr>verbose := False\<rparr>\<rparr>)
       one_key) = [PlayBegin a_buffer, PlayEnd a_buffer] \<and>
   silent_started (startup sample_env phonicsMap [''phonical'', ''-v''] initial_state) =
     silent_started (startup sample_env phonicsMap [''phonical''] initial_state)"
proof -
  let ?t = "(running initial_state)\<lparr>globals := (globals (running initial_state))\<lparr>verbose := True\<rparr>\<rparr>"
  let ?f = "(running initial_state)\<lparr>globals := (globals (running initial_state))\<lparr>verbose := False\<rparr>\<rparr>"
  have 1: "all_sends sample_env ?t one_key = [(''a.wav'', True)]"
    by (simp add: one_key_def sample_simps)
  have 2: "audio (exec sample_env ?t one_key) = [PlayBegin a_buffer, PlayEnd a_buffer]"
    by (simp add: one_key_def sample_simps)
  from verbose_no_effect [of sample_env "running initial_state" one_key phonicsMap "''phonical''" initial_state] 1 2
  show ?thesis by simp
qed

subsection \<open>One clip at a time\<close>

lemma sequential_begin:
  "sequential au \<Longrightarrow> even (length au) \<Longrightarrow> sequential (au @ [PlayBegin b])"
  by (induction au rule: sequential.induct) simp_all

lemma sequential_end:
  "sequential au \<Longrightarrow> even (length au) \<Longrightarrow> sequential (au @ [PlayBegin b, PlayEnd b])"
  by (induction au rule: sequential.induct) simp_all

lemma step_one_at_a_time: "one_at_a_time c \<Longrightarrow> one_at_a_time (step env c a)"
proof (cases a)
  case (Event ev)
  assume "one_at_a_time c"
  with Event show ?thesis by (simp add: one_at_a_time_def split: consumer.splits)
next
  case Consume
  assume i: "one_at_a_time c"
  show ?thesis
  proof (cases "consumer c")
    case AwaitingDone
    with i Consume show ?thesis by (simp add: consume_def)
  next
    case Receiving
    show ?thesis
    proof (cases "playQueue (globals c)")
      case Nil
      with i Consume Receiving show ?thesis by (simp add: consume_def)
    next
      case (Cons x q)
      obtain g r where p: "playSound env ((globals c)\<lparr>playQueue := q\<rparr>) x = (g, r)"
        by (cases "playSound env ((globals c)\<lparr>playQueue := q\<rparr>) x")
      from i Receiving show ?thesis
        by (cases r)
           (simp_all add: Consume consume_def Cons p one_at_a_time_def sequential_begin)
    qed
  qed
next
  case (DeviceDone i)
  assume inv: "one_at_a_time c"
  show ?thesis
  proof (cases "consumer c")
    case Receiving
    with inv DeviceDone show ?thesis by (simp add: deviceDone_def one_at_a_time_def)
  next
    case AwaitingDone
    with inv obtain b au where s: "speaker c = [b]" "audio c = au @ [PlayBegin b]"
      "sequential au" "even (length au)"
      by (auto simp: one_at_a_time_def)
    with inv AwaitingDone show ?thesis
      by (simp add: DeviceDone deviceDone_def one_at_a_time_def sequential_end)
  qed
qed

lemma exec_one_at_a_time: "one_at_a_time c \<Longrightarrow> one_at_a_time (exec env c sched)"
  by (induction sched arbitrary: c) (simp_all add: step_one_at_a_time)

lemma one_at_a_time_running: "one_at_a_time (running s)"
  by (simp add: one_at_a_time_def running_def)

lemma one_at_a_time_sequential: "one_at_a_time c \<Longrightarrow> sequential (audio c)"
  by (cases "consumer c") (auto simp: one_at_a_time_def sequential_begin)

text \<open>
  C3.  In every run of the program from its start, the history of the device is
  sequential: a clip that has begun ends before the next one begins.  The
  device never holds more than one buffer, and it holds one exactly while the
  consumer waits for \<^verbatim>\<open>done\<close>.  While the consumer waits, a step of the consumer
  changes nothing and receives nothing from the queue; only the device's
  callback brings the consumer back to the head of its loop.
\<close>

theorem playback_sequential:
  "sequential (audio (exec env (running s) sched)) \<and>
   length (speaker (exec env (running s) sched)) \<le> 1 \<and>
   (consumer (exec env (running s) sched) = AwaitingDone \<longleftrightarrow>
      speaker (exec env (running s) sched) \<noteq> []) \<and>
   (consumer (exec env (running s) sched) = AwaitingDone \<longrightarrow>
      step env (exec env (running s) sched) Consume = exec env (running s) sched \<and>
      receives (exec env (running s) sched) Consume = [] \<and>
      consumer (step env (exec env (running s) sched) (DeviceDone 0)) = Receiving)"
proof -
  let ?c = "exec env (running s) sched"
  have i: "one_at_a_time ?c"
    by (rule exec_one_at_a_time) (rule one_at_a_time_running)
  then have 1: "sequential (audio ?c)" by (rule one_at_a_time_sequential)
  from i have 2: "length (speaker ?c) \<le> 1"
    by (cases "consumer ?c") (auto simp: one_at_a_time_def)
  from i have 3: "consumer ?c = AwaitingDone \<longleftrightarrow> speaker ?c \<noteq> []"
    by (cases "consumer ?c") (auto simp: one_at_a_time_def)
  have 4: "step env ?c Consume = ?c \<and> receives ?c Consume = [] \<and>
           consumer (step env ?c (DeviceDone 0)) = Receiving"
    if "consumer ?c = AwaitingDone"
    using that 3 by (simp add: consume_def receives_def deviceDone_def)
  from 1 2 3 4 show ?thesis by blast
qed

theorem playback_sequential_witness:
  "consumer (exec sample_env (running (a_cached\<lparr>playQueue := [''a.wav'', ''a.wav'']\<rparr>))
              [Consume, Event (key_down 97), Consume]) = AwaitingDone \<and>
   audio (exec sample_env (running (a_cached\<lparr>playQueue := [''a.wav'', ''a.wav'']\<rparr>))
              [Consume, Event (key_down 97), Consume]) = [PlayBegin a_buffer] \<and>
   sequential (audio (exec sample_env (running (a_cached\<lparr>playQueue := [''a.wav'', ''a.wav'']\<rparr>))
              [Consume, Event (key_down 97), Consume])) \<and>
   length (speaker (exec sample_env (running (a_cached\<lparr>playQueue := [''a.wav'', ''a.wav'']\<rparr>))
              [Consume, Event (key_down 97), Consume])) \<le> 1 \<and>
   step sample_env (exec sample_env (running (a_cached\<lparr>playQueue := [''a.wav'', ''a.wav'']\<rparr>))
              [Consume, Event (key_down 97), Consume]) Consume =
     exec sample_env (running (a_cached\<lparr>playQueue := [''a.wav'', ''a.wav'']\<rparr>))
              [Consume, Event (key_down 97), Consume] \<and>
   consumer (step sample_env (exec sample_env (running (a_cached\<lparr>playQueue := [''a.wav'', ''a.wav'']\<rparr>))
              [Consume, Event (key_down 97), Consume]) (DeviceDone 0)) = Receiving"
proof -
  let ?c = "exec sample_env (running (a_cached\<lparr>playQueue := [''a.wav'', ''a.wav'']\<rparr>))
              [Consume, Event (key_down 97), Consume]"
  have 1: "consumer ?c = AwaitingDone"
    by (simp add: sample_simps)
  have 2: "audio ?c = [PlayBegin a_buffer]"
    by (simp add: sample_simps)
  from playback_sequential
         [of sample_env "a_cached\<lparr>playQueue := [''a.wav'', ''a.wav'']\<rparr>"
             "[Consume, Event (key_down 97), Consume]"] 1 2
  show ?thesis by simp
qed

end
